theory Spec2Isabelle
  imports Complex_Main
begin

section \<open>Python values used by the trading bot\<close>

text \<open>
  The bot is Python. Its strings are modelled as HOL strings: one \<open>char\<close> per code point,
  code points below 256. The helpers below follow the standard library on that range;
  \<open>upper\<close> is the ASCII case mapping, so statements that depend on it are made for
  ASCII strings (\<open>isascii\<close>).
\<close>

text \<open>
  The exceptions the bot can meet. \<open>ClientError\<close> stands for whatever the exchange
  client library raises from an order call (an API, request or transport error), with its
  message; like all the others except \<open>SystemExit\<close> it is a subclass of
  \<open>Exception\<close>.
\<close>

datatype py_exception =
    ArgumentTypeError string
  | InvalidOperation string
  | DivisionByZero
  | Overflow
  | ValueError string
  | KeyError string
  | ClientError string
  | SystemExit int

fun is_Exception :: "py_exception \<Rightarrow> bool" where
  "is_Exception (SystemExit _) = False"
| "is_Exception _ = True"

text \<open>\<open>str(n)\<close> for an integer.\<close>

fun str_nat :: "nat \<Rightarrow> string" where
  "str_nat n = (if n < 10 then [char_of (48 + n)]
                else str_nat (n div 10) @ [char_of (48 + n mod 10)])"

declare str_nat.simps [simp del]

definition str_int :: "int \<Rightarrow> string" where
  "str_int n = (if n < 0 then CHR ''-'' # str_nat (nat (- n)) else str_nat (nat n))"

definition signal_str :: "string \<Rightarrow> string" where
  "signal_str name = ''[<class '' @ [CHR 0x27] @ ''decimal.'' @ name @ [CHR 0x27] @ ''>]''"

text \<open>\<open>str(e)\<close> for an exception.\<close>

fun exc_str :: "py_exception \<Rightarrow> string" where
  "exc_str (ArgumentTypeError m) = m"
| "exc_str (InvalidOperation cond) = signal_str cond"
| "exc_str DivisionByZero = signal_str ''DivisionByZero''"
| "exc_str Overflow = signal_str ''Overflow''"
| "exc_str (ValueError m) = m"
| "exc_str (KeyError k) = [CHR 0x27] @ k @ [CHR 0x27]"
| "exc_str (ClientError m) = m"
| "exc_str (SystemExit n) = str_int n"

text \<open>\<open>str.isascii\<close>: every code point is below 128.\<close>

definition isascii :: "string \<Rightarrow> bool" where
  "isascii s = (\<forall>c \<in> set s. (of_char c :: nat) < 128)"

text \<open>
  \<open>str.isspace\<close> on one character: tab, line feed, vertical tab, form feed, carriage
  return, the four separators 28..31, space, and in the upper half NEL (133) and the
  no-break space (160).
\<close>

definition isspace :: "char \<Rightarrow> bool" where
  "isspace c = ((of_char c :: nat) \<in> {9, 10, 11, 12, 13, 28, 29, 30, 31, 32, 133, 160})"

text \<open>\<open>str.strip()\<close>: drop leading and trailing whitespace.\<close>

definition strip :: "string \<Rightarrow> string" where
  "strip s = rev (dropWhile isspace (rev (dropWhile isspace s)))"

definition ascii_lowercase :: string where
  "ascii_lowercase = ''abcdefghijklmnopqrstuvwxyz''"

definition ascii_uppercase :: string where
  "ascii_uppercase = ''ABCDEFGHIJKLMNOPQRSTUVWXYZ''"

definition upper_char :: "char \<Rightarrow> char" where
  "upper_char c = (case map_of (zip ascii_lowercase ascii_uppercase) c of
                     Some u \<Rightarrow> u | None \<Rightarrow> c)"

definition lower_char :: "char \<Rightarrow> char" where
  "lower_char c = (case map_of (zip ascii_uppercase ascii_lowercase) c of
                     Some l \<Rightarrow> l | None \<Rightarrow> c)"

text \<open>\<open>str.upper()\<close> and \<open>str.lower()\<close> on ASCII strings.\<close>

definition upper :: "string \<Rightarrow> string" where
  "upper s = map upper_char s"

definition lower :: "string \<Rightarrow> string" where
  "lower s = map lower_char s"

definition isdigit :: "char \<Rightarrow> bool" where
  "isdigit c = (c \<in> set ''0123456789'')"

definition digit_val :: "char \<Rightarrow> nat" where
  "digit_val c = of_char c - 48"

text \<open>The value of a string of decimal digits, most significant first; 0 for the empty string.\<close>

definition digits_val :: "string \<Rightarrow> nat" where
  "digits_val ds = foldl (\<lambda>acc c. 10 * acc + digit_val c) 0 ds"

subsection \<open>\<open>decimal.Decimal\<close>\<close>

text \<open>
  A \<open>Decimal\<close> is a sign, a coefficient and an exponent, or one of the special values.
  \<open>Fin s c e\<close> stands for \<open>(-1)^s * c * 10^e\<close> (the sign is \<open>True\<close> for negative);
  NaNs carry their sign and diagnostic payload (0 when there is none).
\<close>

datatype decimal =
    Fin bool nat int
  | Inf bool
  | NaN bool nat
  | SNaN bool nat

text \<open>The rational value of a finite decimal (0 for the special values, which have none).\<close>

fun dec_val :: "decimal \<Rightarrow> rat" where
  "dec_val (Fin s c e) =
     (if s then - 1 else 1) * of_nat c *
     (if 0 \<le> e then 10 ^ nat e else 1 / 10 ^ nat (- e))"
| "dec_val _ = 0"

fun is_finite :: "decimal \<Rightarrow> bool" where
  "is_finite (Fin _ _ _) = True"
| "is_finite _ = False"

text \<open>
  The exponent suffix of a numeric string: empty, or \<open>E\<close>/\<open>e\<close>, an optional sign and at
  least one digit.
\<close>

definition parse_exponent :: "string \<Rightarrow> int option" where
  "parse_exponent s =
     (case s of
        [] \<Rightarrow> Some 0
      | c # r \<Rightarrow>
          if c = CHR ''e'' \<or> c = CHR ''E'' then
            (let (neg, ds) = (case r of
                                [] \<Rightarrow> (False, [])
                              | d # r' \<Rightarrow> if d = CHR ''-'' then (True, r')
                                         else if d = CHR ''+'' then (False, r')
                                         else (False, r))
             in if ds \<noteq> [] \<and> list_all isdigit ds
                then Some ((if neg then - 1 else 1) * int (digits_val ds))
                else None)
          else None)"

text \<open>
  \<open>Decimal(value)\<close> for a string: the string is stripped, its underscores are removed,
  and the rest must be an optional sign followed by a number (digits with an optional
  fraction and exponent, at least one digit), an infinity (\<open>Inf\<close>, \<open>Infinity\<close>) or a
  NaN (\<open>NaN\<close>, \<open>sNaN\<close>, with optional diagnostic digits), letters in either case.
  Anything else raises \<open>InvalidOperation\<close>. Coefficient and exponent are unbounded, as
  in the library's Python implementation.
\<close>

definition Decimal_str :: "string \<Rightarrow> py_exception + decimal" where
  "Decimal_str value_str =
     (let t = filter (\<lambda>c. c \<noteq> CHR ''_'') (strip value_str);
          (sign, body) = (case t of
                            [] \<Rightarrow> (False, [])
                          | c # r \<Rightarrow> if c = CHR ''-'' then (True, r)
                                     else if c = CHR ''+'' then (False, r)
                                     else (False, t));
          low = lower body
      in if low = ''inf'' \<or> low = ''infinity'' then Inr (Inf sign)
         else if take 3 low = ''nan'' then
           (if list_all isdigit (drop 3 low)
            then Inr (NaN sign (digits_val (drop 3 low)))
            else Inl (InvalidOperation ''ConversionSyntax''))
         else if take 4 low = ''snan'' then
           (if list_all isdigit (drop 4 low)
            then Inr (SNaN sign (digits_val (drop 4 low)))
            else Inl (InvalidOperation ''ConversionSyntax''))
         else
           (let intpart = takeWhile isdigit body;
                rest1 = dropWhile isdigit body;
                (fracpart, rest2) =
                   (case rest1 of
                      [] \<Rightarrow> ([], [])
                    | c # r \<Rightarrow> if c = CHR ''.''
                               then (takeWhile isdigit r, dropWhile isdigit r)
                               else ([], rest1))
            in if intpart @ fracpart = [] then Inl (InvalidOperation ''ConversionSyntax'')
               else (case parse_exponent rest2 of
                       None \<Rightarrow> Inl (InvalidOperation ''ConversionSyntax'')
                     | Some ex \<Rightarrow>
                         Inr (Fin sign (digits_val (intpart @ fracpart))
                                (ex - int (length fracpart))))))"

text \<open>
  \<open>d <= 0\<close>: an ordering comparison with a NaN operand raises \<open>InvalidOperation\<close>
  (the signal is trapped in the default context); otherwise zeros of either sign equal 0
  and every other value compares by its sign.
\<close>

fun dec_le_zero :: "decimal \<Rightarrow> py_exception + bool" where
  "dec_le_zero (NaN _ _) = Inl (InvalidOperation ''InvalidOperation'')"
| "dec_le_zero (SNaN _ _) = Inl (InvalidOperation ''InvalidOperation'')"
| "dec_le_zero (Inf s) = Inr s"
| "dec_le_zero (Fin s c _) = Inr (c = 0 \<or> s)"

subsection \<open>Decimal arithmetic in the default context\<close>

text \<open>
  The bot never changes the arithmetic context, so every operation runs in the default
  one: 28 significant digits, rounding half to even, exponents within \<open>Emin..Emax\<close>,
  and the signals \<open>InvalidOperation\<close>, \<open>DivisionByZero\<close> and \<open>Overflow\<close>
  trapped, that is, raised as exceptions.
\<close>

definition prec :: nat where
  "prec = 28"

definition Emax :: int where
  "Emax = 999999"

definition Emin :: int where
  "Emin = - 999999"

definition Etiny :: int where
  "Etiny = Emin - int prec + 1"

definition Etop :: int where
  "Etop = Emax - int prec + 1"

text \<open>The number of decimal digits of a coefficient (1 for 0).\<close>

fun ndigits :: "nat \<Rightarrow> nat" where
  "ndigits n = (if n < 10 then 1 else Suc (ndigits (n div 10)))"

declare ndigits.simps [simp del]

text \<open>The adjusted exponent: the exponent of the most significant digit.\<close>

definition adjusted :: "nat \<Rightarrow> int \<Rightarrow> int" where
  "adjusted c e = e + int (ndigits c) - 1"

definition dec_of_int :: "int \<Rightarrow> decimal" where
  "dec_of_int n = Fin (n < 0) (nat \<bar>n\<bar>) 0"

text \<open>A NaN's payload is cut to the last \<open>prec\<close> digits when it is longer.\<close>

definition fix_nan :: "nat \<Rightarrow> nat" where
  "fix_nan p = (if ndigits p > prec then p mod 10 ^ prec else p)"

text \<open>
  Rounding a finite result to the context. A zero keeps its sign and has its exponent
  clamped to \<open>Etiny..Emax\<close>. A non-zero value whose adjusted exponent exceeds \<open>Emax\<close>
  overflows. Otherwise, when the coefficient has more than \<open>prec\<close> digits (or the
  value is subnormal), the low digits are dropped, rounding half to even; a carry into a
  29th digit drops one digit more.
\<close>

definition dec_fix :: "bool \<Rightarrow> nat \<Rightarrow> int \<Rightarrow> py_exception + decimal" where
  "dec_fix s c e =
     (if c = 0 then Inr (Fin s 0 (min (max e Etiny) Emax))
      else
        let exp_min0 = int (ndigits c) + e - int prec
        in if exp_min0 > Etop then Inl Overflow
           else
             let exp_min = max exp_min0 Etiny
             in if e < exp_min then
                  (let k = nat (exp_min - e);
                       q = c div 10 ^ k;
                       r = c mod 10 ^ k;
                       up = (2 * r > 10 ^ k \<or> (2 * r = 10 ^ k \<and> odd q));
                       c1 = (if up then q + 1 else q);
                       (c2, e2) = (if up \<and> ndigits c1 > prec
                                   then (c1 div 10, exp_min + 1)
                                   else (c1, exp_min))
                   in if e2 > Etop then Inl Overflow else Inr (Fin s c2 e2))
                else Inr (Fin s c e))"

text \<open>
  An exact quotient is brought as close to the ideal exponent as its trailing zeros
  allow.
\<close>

function strip_zeros :: "nat \<Rightarrow> int \<Rightarrow> int \<Rightarrow> nat \<times> int" where
  "strip_zeros coeff ex ideal_exp =
     (if ex < ideal_exp \<and> coeff mod 10 = 0
      then strip_zeros (coeff div 10) (ex + 1) ideal_exp
      else (coeff, ex))"
  by pat_completeness auto
termination
  by (relation "measure (\<lambda>(coeff, ex, ideal_exp). nat (ideal_exp - ex))") auto

declare strip_zeros.simps [simp del]

text \<open>
  \<open>a / b\<close>. Signalling NaNs raise, quiet NaNs propagate; \<open>Inf / Inf\<close> and \<open>0 / 0\<close>
  raise \<open>InvalidOperation\<close> (whose argument names the condition), a non-zero finite value over zero raises
  \<open>DivisionByZero\<close>. For non-zero finite operands the quotient is computed to
  \<open>prec + 1\<close> digits, made sticky when inexact, and rounded by \<open>dec_fix\<close>.
\<close>

fun dec_truediv :: "decimal \<Rightarrow> decimal \<Rightarrow> py_exception + decimal" where
  "dec_truediv (SNaN s p) _ = Inl (InvalidOperation ''InvalidOperation'')"
| "dec_truediv _ (SNaN s p) = Inl (InvalidOperation ''InvalidOperation'')"
| "dec_truediv (NaN s p) _ = Inr (NaN s (fix_nan p))"
| "dec_truediv _ (NaN s p) = Inr (NaN s (fix_nan p))"
| "dec_truediv (Inf s1) (Inf s2) = Inl (InvalidOperation ''InvalidOperation'')"
| "dec_truediv (Inf s1) (Fin s2 c2 e2) = Inr (Inf (s1 \<noteq> s2))"
| "dec_truediv (Fin s1 c1 e1) (Inf s2) = Inr (Fin (s1 \<noteq> s2) 0 Etiny)"
| "dec_truediv (Fin s1 c1 e1) (Fin s2 c2 e2) =
     (if c2 = 0 then (if c1 = 0 then Inl (InvalidOperation ''DivisionUndefined'') else Inl DivisionByZero)
      else if c1 = 0 then dec_fix (s1 \<noteq> s2) 0 (e1 - e2)
      else
        let shift = int (ndigits c2) - int (ndigits c1) + int prec + 1;
            ex = e1 - e2 - shift;
            (coeff, remainder) =
               (if 0 \<le> shift
                then ((c1 * 10 ^ nat shift) div c2, (c1 * 10 ^ nat shift) mod c2)
                else (c1 div (c2 * 10 ^ nat (- shift)), c1 mod (c2 * 10 ^ nat (- shift))))
        in if remainder \<noteq> 0
           then dec_fix (s1 \<noteq> s2) (if coeff mod 5 = 0 then coeff + 1 else coeff) ex
           else (let (coeff', ex') = strip_zeros coeff ex (e1 - e2)
                 in dec_fix (s1 \<noteq> s2) coeff' ex'))"

text \<open>
  \<open>a // b\<close>: the integer part of the quotient, truncated towards zero, with exponent 0.
  It raises \<open>InvalidOperation\<close> when the integer has more than \<open>prec\<close> digits.
\<close>

fun dec_floordiv :: "decimal \<Rightarrow> decimal \<Rightarrow> py_exception + decimal" where
  "dec_floordiv (SNaN s p) _ = Inl (InvalidOperation ''InvalidOperation'')"
| "dec_floordiv _ (SNaN s p) = Inl (InvalidOperation ''InvalidOperation'')"
| "dec_floordiv (NaN s p) _ = Inr (NaN s (fix_nan p))"
| "dec_floordiv _ (NaN s p) = Inr (NaN s (fix_nan p))"
| "dec_floordiv (Inf s1) (Inf s2) = Inl (InvalidOperation ''InvalidOperation'')"
| "dec_floordiv (Inf s1) (Fin s2 c2 e2) = Inr (Inf (s1 \<noteq> s2))"
| "dec_floordiv (Fin s1 c1 e1) (Inf s2) = Inr (Fin (s1 \<noteq> s2) 0 0)"
| "dec_floordiv (Fin s1 c1 e1) (Fin s2 c2 e2) =
     (if c2 = 0 then (if c1 \<noteq> 0 then Inl DivisionByZero else Inl (InvalidOperation ''DivisionUndefined''))
      else
        let expdiff = adjusted c1 e1 - adjusted c2 e2
        in if c1 = 0 \<or> expdiff \<le> - 2 then Inr (Fin (s1 \<noteq> s2) 0 0)
           else if expdiff \<le> int prec then
             (let op1 = (if e2 \<le> e1 then c1 * 10 ^ nat (e1 - e2) else c1);
                  op2 = (if e2 \<le> e1 then c2 else c2 * 10 ^ nat (e2 - e1));
                  q = op1 div op2
              in if q < 10 ^ prec then Inr (Fin (s1 \<noteq> s2) q 0)
                 else Inl (InvalidOperation ''DivisionImpossible''))
           else Inl (InvalidOperation ''DivisionImpossible''))"

text \<open>\<open>a * b\<close>: the exact product, rounded by \<open>dec_fix\<close>; \<open>Inf * 0\<close> raises.\<close>

fun dec_mul :: "decimal \<Rightarrow> decimal \<Rightarrow> py_exception + decimal" where
  "dec_mul (SNaN s p) _ = Inl (InvalidOperation ''InvalidOperation'')"
| "dec_mul _ (SNaN s p) = Inl (InvalidOperation ''InvalidOperation'')"
| "dec_mul (NaN s p) _ = Inr (NaN s (fix_nan p))"
| "dec_mul _ (NaN s p) = Inr (NaN s (fix_nan p))"
| "dec_mul (Inf s1) (Inf s2) = Inr (Inf (s1 \<noteq> s2))"
| "dec_mul (Inf s1) (Fin s2 c2 e2) =
     (if c2 = 0 then Inl (InvalidOperation ''InvalidOperation'') else Inr (Inf (s1 \<noteq> s2)))"
| "dec_mul (Fin s1 c1 e1) (Inf s2) =
     (if c1 = 0 then Inl (InvalidOperation ''InvalidOperation'') else Inr (Inf (s1 \<noteq> s2)))"
| "dec_mul (Fin s1 c1 e1) (Fin s2 c2 e2) = dec_fix (s1 \<noteq> s2) (c1 * c2) (e1 + e2)"

section \<open>The command-line bot: validators\<close>

text \<open>
  \<open>parse_decimal\<close> of \<open>trading_bot.py\<close>: the conversion's \<open>InvalidOperation\<close> becomes
  an \<open>ArgumentTypeError\<close>; the comparison \<open>d <= 0\<close> is outside the \<open>try\<close>, so what it
  raises propagates unchanged.
\<close>

definition parse_decimal :: "string \<Rightarrow> py_exception + decimal" where
  "parse_decimal value_str =
     (case Decimal_str value_str of
        Inl (InvalidOperation _) \<Rightarrow> Inl (ArgumentTypeError (''Invalid number: '' @ value_str))
      | Inl e \<Rightarrow> Inl e
      | Inr d \<Rightarrow>
          (case dec_le_zero d of
             Inl e \<Rightarrow> Inl e
           | Inr True \<Rightarrow> Inl (ArgumentTypeError ''Value must be positive'')
           | Inr False \<Rightarrow> Inr d))"

text \<open>\<open>validate_side\<close> of \<open>trading_bot.py\<close>.\<close>

definition validate_side :: "string \<Rightarrow> py_exception + string" where
  "validate_side s =
     (let s2 = upper (strip s)
      in if s2 \<noteq> ''BUY'' \<and> s2 \<noteq> ''SELL''
         then Inl (ArgumentTypeError ''Side must be BUY or SELL'')
         else Inr s2)"

section \<open>The command-line bot: orders\<close>

text \<open>
  The exchange is reached through the client library's \<open>futures_create_order\<close>. Its
  keyword arguments are recorded as an \<open>order\<close>. The quantity is sent as
  \<open>float(qty)\<close> and the price as \<open>str(price)\<close>; both are kept symbolic (\<open>Float d\<close> is
  the double nearest to \<open>d\<close>, \<open>Str d\<close> the text of \<open>d\<close>), since no property below
  depends on binary rounding or on number formatting. \<open>float\<close> refuses a signalling
  NaN.
\<close>

datatype py_float = Float decimal

datatype py_str = Str decimal

definition float_of :: "decimal \<Rightarrow> py_exception + py_float" where
  "float_of d = (case d of
                   SNaN s p \<Rightarrow> Inl (ValueError ''cannot convert signaling NaN to float'')
                 | _ \<Rightarrow> Inr (Float d))"

record order =
  order_symbol :: string
  order_side :: string
  order_type :: string
  order_timeInForce :: "string option"
  order_quantity :: py_float
  order_price :: "py_str option"

text \<open>
  The exchange itself is a parameter: a state \<open>'s\<close> and a function that answers an
  order with a response \<open>'r\<close> or with the message of the exception it raises, and moves
  to the next state. The world the bot acts on holds that state, the orders sent so far
  and the pauses taken so far (\<open>time.sleep\<close>), oldest first, and the log of both kinds
  of event in the order in which they happened. Log lines are not part of the model.
\<close>

type_synonym ('s, 'r) client = "order \<Rightarrow> 's \<Rightarrow> (string + 'r) \<times> 's"

datatype event = Sent order | Slept int

record 's world =
  exchange :: 's
  orders :: "order list"
  sleeps :: "int list"
  events :: "event list"

text \<open>
  What \<open>market\<close> and \<open>limit\<close> return: the client's response, or the dictionary
  \<open>{"error": str(e)}\<close>.
\<close>

datatype 'r order_result = Response 'r | Error string

definition futures_create_order ::
  "('s, 'r) client \<Rightarrow> order \<Rightarrow> 's world \<Rightarrow> (py_exception + 'r) \<times> 's world" where
  "futures_create_order cl req w =
     (let (out, ex') = cl req (exchange w);
          w' = w\<lparr>exchange := ex', orders := orders w @ [req],
                 events := events w @ [Sent req]\<rparr>
      in (case out of
            Inl msg \<Rightarrow> (Inl (ClientError msg), w')
          | Inr resp \<Rightarrow> (Inr resp, w')))"

text \<open>
  The handler shared by \<open>market\<close> and \<open>limit\<close>:
  \<open>except Exception as e: return {"error": str(e)}\<close>. It catches subclasses of
  \<open>Exception\<close> only.
\<close>

definition except_Exception :: "py_exception + 'r \<Rightarrow> py_exception + 'r order_result" where
  "except_Exception out =
     (case out of
        Inr resp \<Rightarrow> Inr (Response resp)
      | Inl e \<Rightarrow> if is_Exception e then Inr (Error (exc_str e)) else Inl e)"

text \<open>\<open>FuturesBot.market\<close>: the body of the \<open>try\<close>, then the method.\<close>

definition market_order :: "string \<Rightarrow> string \<Rightarrow> py_float \<Rightarrow> order" where
  "market_order symbol side q =
     \<lparr>order_symbol = upper symbol, order_side = side, order_type = ''MARKET'',
      order_timeInForce = None, order_quantity = q, order_price = None\<rparr>"

definition market_try ::
  "('s, 'r) client \<Rightarrow> string \<Rightarrow> string \<Rightarrow> decimal \<Rightarrow> 's world
     \<Rightarrow> (py_exception + 'r) \<times> 's world" where
  "market_try cl symbol side qty w =
     (case float_of qty of
        Inl e \<Rightarrow> (Inl e, w)
      | Inr q \<Rightarrow> futures_create_order cl (market_order symbol side q) w)"

definition market ::
  "('s, 'r) client \<Rightarrow> string \<Rightarrow> string \<Rightarrow> decimal \<Rightarrow> 's world
     \<Rightarrow> (py_exception + 'r order_result) \<times> 's world" where
  "market cl symbol side qty w =
     (let (out, w') = market_try cl symbol side qty w in (except_Exception out, w'))"

text \<open>\<open>FuturesBot.limit\<close>.\<close>

definition limit_order :: "string \<Rightarrow> string \<Rightarrow> py_float \<Rightarrow> py_str \<Rightarrow> order" where
  "limit_order symbol side q p =
     \<lparr>order_symbol = upper symbol, order_side = side, order_type = ''LIMIT'',
      order_timeInForce = Some ''GTC'', order_quantity = q, order_price = Some p\<rparr>"

definition limit_try ::
  "('s, 'r) client \<Rightarrow> string \<Rightarrow> string \<Rightarrow> decimal \<Rightarrow> decimal \<Rightarrow> 's world
     \<Rightarrow> (py_exception + 'r) \<times> 's world" where
  "limit_try cl symbol side qty price w =
     (case float_of qty of
        Inl e \<Rightarrow> (Inl e, w)
      | Inr q \<Rightarrow> futures_create_order cl (limit_order symbol side q (Str price)) w)"

definition limit ::
  "('s, 'r) client \<Rightarrow> string \<Rightarrow> string \<Rightarrow> decimal \<Rightarrow> decimal \<Rightarrow> 's world
     \<Rightarrow> (py_exception + 'r order_result) \<times> 's world" where
  "limit cl symbol side qty price w =
     (let (out, w') = limit_try cl symbol side qty price w in (except_Exception out, w'))"

text \<open>
  \<open>time.sleep(secs)\<close> for an integer: a negative length raises \<open>ValueError\<close>.
  (A length beyond the platform's timestamp range, which raises \<open>OverflowError\<close>, is
  not modelled.)
\<close>

definition time_sleep :: "int \<Rightarrow> 's world \<Rightarrow> py_exception + 's world" where
  "time_sleep secs w =
     (if secs < 0 then Inl (ValueError ''sleep length must be non-negative'')
      else Inr (w\<lparr>sleeps := sleeps w @ [secs], events := events w @ [Slept secs]\<rparr>))"

text \<open>
  \<open>FuturesBot.twap\<close>. The loop \<open>for i in range(parts)\<close> is the recursion on \<open>i\<close>;
  \<open>results\<close> is the list built so far. Neither the division nor \<open>time.sleep\<close> is
  inside a \<open>try\<close>, so what they raise ends the call.
\<close>

function twap_loop ::
  "('s, 'r) client \<Rightarrow> string \<Rightarrow> string \<Rightarrow> decimal \<Rightarrow> int \<Rightarrow> int \<Rightarrow> int
     \<Rightarrow> 'r order_result list \<Rightarrow> 's world
     \<Rightarrow> (py_exception + 'r order_result list) \<times> 's world" where
  "twap_loop cl symbol side piece parts interval i results w =
     (if i < parts then
        (case market cl symbol side piece w of
           (Inl e, w1) \<Rightarrow> (Inl e, w1)
         | (Inr resp, w1) \<Rightarrow>
             if i < parts - 1 then
               (case time_sleep interval w1 of
                  Inl e \<Rightarrow> (Inl e, w1)
                | Inr w2 \<Rightarrow>
                    twap_loop cl symbol side piece parts interval (i + 1) (results @ [resp]) w2)
             else twap_loop cl symbol side piece parts interval (i + 1) (results @ [resp]) w1)
      else (Inr results, w))"
  by pat_completeness auto
termination
  by (relation "measure (\<lambda>(cl, symbol, side, piece, parts, interval, i, results, w).
                  nat (parts - i))") auto

declare twap_loop.simps [simp del]

definition twap ::
  "('s, 'r) client \<Rightarrow> string \<Rightarrow> string \<Rightarrow> decimal \<Rightarrow> int \<Rightarrow> int \<Rightarrow> 's world
     \<Rightarrow> (py_exception + 'r order_result list) \<times> 's world" where
  "twap cl symbol side total_qty parts interval w =
     (case dec_truediv total_qty (dec_of_int parts) of
        Inl e \<Rightarrow> (Inl e, w)
      | Inr piece \<Rightarrow> twap_loop cl symbol side piece parts interval 0 [] w)"

section \<open>The command-line bot: \<open>main\<close>\<close>

text \<open>
  \<open>int(s)\<close> for a string, as \<open>argparse\<close> applies it to \<open>--parts\<close> and
  \<open>--interval\<close>: surrounding whitespace, an optional sign, and digits that single
  underscores may separate. \<open>None\<close> stands for the \<open>ValueError\<close>. The whitespace
  \<open>int\<close> skips is narrower than that of \<open>str.strip\<close>: the separators 28..31 do not
  count. (The interpreter's limit on the length of the digit string is not modelled.)
\<close>

definition int_isspace :: "char \<Rightarrow> bool" where
  "int_isspace c = ((of_char c :: nat) \<in> {9, 10, 11, 12, 13, 32, 133, 160})"

fun int_digits :: "string \<Rightarrow> bool" where
  "int_digits [] = False"
| "int_digits [c] = isdigit c"
| "int_digits (c # d # r) =
     (isdigit c \<and> (if d = CHR ''_'' then int_digits r else int_digits (d # r)))"

definition py_int :: "string \<Rightarrow> int option" where
  "py_int s =
     (let t = rev (dropWhile int_isspace (rev (dropWhile int_isspace s)));
          (neg, body) = (case t of
                           [] \<Rightarrow> (False, [])
                         | c # r \<Rightarrow> if c = CHR ''-'' then (True, r)
                                    else if c = CHR ''+'' then (False, r)
                                    else (False, t))
      in if int_digits body
         then Some ((if neg then - 1 else 1) *
                    int (digits_val (filter (\<lambda>c. c \<noteq> CHR ''_'') body)))
         else None)"

text \<open>
  The command line after \<open>argparse\<close> has split it: the subcommand with the raw strings
  of its options (\<open>--parts\<close> and \<open>--interval\<close> may be absent). \<open>argparse\<close> passes each
  raw string through the option's \<open>type\<close>; an \<open>ArgumentTypeError\<close> or a
  \<open>ValueError\<close> from it ends the program with exit status 2, any other exception
  propagates. Options are converted here in the order of their declaration.
\<close>

datatype argv =
    Market_args string string string
  | Limit_args string string string string
  | Twap_args string string string "string option" "string option"

datatype namespace =
    Market_ns string string decimal
  | Limit_ns string string decimal decimal
  | Twap_ns string string decimal int int

definition arg_type :: "(string \<Rightarrow> py_exception + 'a) \<Rightarrow> string \<Rightarrow> py_exception + 'a" where
  "arg_type f raw =
     (case f raw of
        Inl (ArgumentTypeError m) \<Rightarrow> Inl (SystemExit 2)
      | Inl (ValueError m) \<Rightarrow> Inl (SystemExit 2)
      | Inl e \<Rightarrow> Inl e
      | Inr v \<Rightarrow> Inr v)"

definition arg_int :: "string option \<Rightarrow> int \<Rightarrow> py_exception + int" where
  "arg_int raw dflt =
     (case raw of
        None \<Rightarrow> Inr dflt
      | Some r \<Rightarrow> (case py_int r of None \<Rightarrow> Inl (SystemExit 2) | Some n \<Rightarrow> Inr n))"

fun parse_args :: "argv \<Rightarrow> py_exception + namespace" where
  "parse_args (Market_args symbol side quantity) =
     (case arg_type validate_side side of
        Inl e \<Rightarrow> Inl e
      | Inr sd \<Rightarrow>
          (case arg_type parse_decimal quantity of
             Inl e \<Rightarrow> Inl e
           | Inr q \<Rightarrow> Inr (Market_ns symbol sd q)))"
| "parse_args (Limit_args symbol side quantity price) =
     (case arg_type validate_side side of
        Inl e \<Rightarrow> Inl e
      | Inr sd \<Rightarrow>
          (case arg_type parse_decimal quantity of
             Inl e \<Rightarrow> Inl e
           | Inr q \<Rightarrow>
               (case arg_type parse_decimal price of
                  Inl e \<Rightarrow> Inl e
                | Inr p \<Rightarrow> Inr (Limit_ns symbol sd q p))))"
| "parse_args (Twap_args symbol side quantity parts interval) =
     (case arg_type validate_side side of
        Inl e \<Rightarrow> Inl e
      | Inr sd \<Rightarrow>
          (case arg_type parse_decimal quantity of
             Inl e \<Rightarrow> Inl e
           | Inr q \<Rightarrow>
               (case arg_int parts 3 of
                  Inl e \<Rightarrow> Inl e
                | Inr n \<Rightarrow>
                    (case arg_int interval 5 of
                       Inl e \<Rightarrow> Inl e
                     | Inr iv \<Rightarrow> Inr (Twap_ns symbol sd q n iv)))))"

text \<open>What \<open>main\<close> prints: one order result, or the list under \<open>twap_results\<close>.\<close>

datatype 'r printed = Order_json "'r order_result" | Twap_json "'r order_result list"

text \<open>
  \<open>main\<close>: parse, then dispatch on the subcommand. The bot's client is taken as
  connected; the world passed in is the one the first order meets.
\<close>

definition main ::
  "('s, 'r) client \<Rightarrow> argv \<Rightarrow> 's world \<Rightarrow> (py_exception + 'r printed) \<times> 's world" where
  "main cl av w =
     (case parse_args av of
        Inl e \<Rightarrow> (Inl e, w)
      | Inr (Market_ns symbol side quantity) \<Rightarrow>
          (case market cl symbol side quantity w of
             (Inl e, w') \<Rightarrow> (Inl e, w')
           | (Inr r, w') \<Rightarrow> (Inr (Order_json r), w'))
      | Inr (Limit_ns symbol side quantity price) \<Rightarrow>
          (case limit cl symbol side quantity price w of
             (Inl e, w') \<Rightarrow> (Inl e, w')
           | (Inr r, w') \<Rightarrow> (Inr (Order_json r), w'))
      | Inr (Twap_ns symbol side quantity parts interval) \<Rightarrow>
          (case twap cl symbol side quantity parts interval w of
             (Inl e, w') \<Rightarrow> (Inl e, w')
           | (Inr rs, w') \<Rightarrow> (Inr (Twap_json rs), w')))"

section \<open>The desktop bot: utility functions\<close>

text \<open>
  \<open>parse_decimal\<close> of \<open>trading_bot_ui.py\<close>: the conversion only; its
  \<open>InvalidOperation\<close> becomes a \<open>ValueError\<close>.
\<close>

definition ui_parse_decimal :: "string \<Rightarrow> py_exception + decimal" where
  "ui_parse_decimal value_str =
     (case Decimal_str value_str of
        Inl (InvalidOperation _) \<Rightarrow> Inl (ValueError ''Invalid number'')
      | Inl e \<Rightarrow> Inl e
      | Inr d \<Rightarrow> Inr d)"

text \<open>
  \<open>adjust_quantity\<close> and \<open>adjust_price\<close> of \<open>trading_bot_ui.py\<close>. The filter is
  the exchange's dictionary for the symbol, whose values are strings; a missing key raises
  \<open>KeyError\<close>, and nothing here is caught.
\<close>

definition adjust_quantity :: "decimal \<Rightarrow> (string \<rightharpoonup> string) \<Rightarrow> py_exception + decimal" where
  "adjust_quantity qty lot_size =
     (case lot_size ''stepSize'' of
        None \<Rightarrow> Inl (KeyError ''stepSize'')
      | Some raw \<Rightarrow>
          (case Decimal_str raw of
             Inl e \<Rightarrow> Inl e
           | Inr step \<Rightarrow>
               (case dec_floordiv qty step of
                  Inl e \<Rightarrow> Inl e
                | Inr n \<Rightarrow> dec_mul n step)))"

definition adjust_price :: "decimal \<Rightarrow> (string \<rightharpoonup> string) \<Rightarrow> py_exception + decimal" where
  "adjust_price price price_filter =
     (case price_filter ''tickSize'' of
        None \<Rightarrow> Inl (KeyError ''tickSize'')
      | Some raw \<Rightarrow>
          (case Decimal_str raw of
             Inl e \<Rightarrow> Inl e
           | Inr tick \<Rightarrow>
               (case dec_floordiv price tick of
                  Inl e \<Rightarrow> Inl e
                | Inr n \<Rightarrow> dec_mul n tick)))"

section \<open>Notions used to state the properties\<close>

text \<open>
  The sign of a decimal as a number: a finite decimal by its rational value, an infinity
  by its sign; a NaN is neither positive nor non-positive.
\<close>

fun dec_positive :: "decimal \<Rightarrow> bool" where
  "dec_positive (Fin s c e) = (0 < dec_val (Fin s c e))"
| "dec_positive (Inf s) = (\<not> s)"
| "dec_positive _ = False"

fun dec_nonpositive :: "decimal \<Rightarrow> bool" where
  "dec_nonpositive (Fin s c e) = (dec_val (Fin s c e) \<le> 0)"
| "dec_nonpositive (Inf s) = s"
| "dec_nonpositive _ = False"

text \<open>The raw quantity string of a command line.\<close>

fun argv_quantity :: "argv \<Rightarrow> string" where
  "argv_quantity (Market_args symbol side quantity) = quantity"
| "argv_quantity (Limit_args symbol side quantity price) = quantity"
| "argv_quantity (Twap_args symbol side quantity parts interval) = quantity"


text \<open>What \<open>market\<close> makes of the client's answer.\<close>

definition as_result :: "string + 'r \<Rightarrow> 'r order_result" where
  "as_result out = (case out of Inl msg \<Rightarrow> Error msg | Inr resp \<Rightarrow> Response resp)"

text \<open>
  The exchange's answers to the same order sent \<open>n\<close> times in a row, each wrapped as
  \<open>market\<close> wraps it, and the exchange's state afterwards.
\<close>

fun send_n :: "('s, 'r) client \<Rightarrow> order \<Rightarrow> nat \<Rightarrow> 's \<Rightarrow> 'r order_result list \<times> 's" where
  "send_n cl req 0 ex = ([], ex)"
| "send_n cl req (Suc n) ex =
     (let (out, ex1) = cl req ex;
          (rs, ex2) = send_n cl req n ex1
      in (as_result out # rs, ex2))"

text \<open>
  The events of a run of \<open>n\<close> orders of the same request: every order but the last is
  followed by a pause, the last by nothing.
\<close>

fun run_events :: "order \<Rightarrow> int \<Rightarrow> nat \<Rightarrow> event list" where
  "run_events req secs 0 = []"
| "run_events req secs (Suc 0) = [Sent req]"
| "run_events req secs (Suc (Suc n)) = Sent req # Slept secs # run_events req secs (Suc n)"

text \<open>A scripted exchange for concrete runs: its state counts the orders; the second one fails.\<close>

definition second_fails :: "(nat, nat) client" where
  "second_fails req n = (if n = 1 then Inl ''rejected'' else Inr n, Suc n)"

definition always_ok :: "(nat, nat) client" where
  "always_ok req n = (Inr n, Suc n)"

definition fresh :: "nat world" where
  "fresh = \<lparr>exchange = 0, orders = [], sleeps = [], events = []\<rparr>"

text \<open>Filters of a symbol as the exchange reports them, for concrete runs.\<close>

definition example_lot_size :: "string \<rightharpoonup> string" where
  "example_lot_size = [''stepSize'' \<mapsto> ''0.001'']"

definition example_price_filter :: "string \<rightharpoonup> string" where
  "example_price_filter = [''tickSize'' \<mapsto> ''0.10'']"

section \<open>Properties of the validators\<close>

lemma Decimal_str_raises:
  "Decimal_str v = Inl e \<Longrightarrow> e = InvalidOperation ''ConversionSyntax''"
  by (auto simp: Decimal_str_def Let_def split: if_splits prod.splits list.splits option.splits)

lemma upper_char_letters:
  "upper_char c = CHR ''B'' \<longleftrightarrow> c = CHR ''b'' \<or> c = CHR ''B''"
  "upper_char c = CHR ''U'' \<longleftrightarrow> c = CHR ''u'' \<or> c = CHR ''U''"
  "upper_char c = CHR ''Y'' \<longleftrightarrow> c = CHR ''y'' \<or> c = CHR ''Y''"
  "upper_char c = CHR ''S'' \<longleftrightarrow> c = CHR ''s'' \<or> c = CHR ''S''"
  "upper_char c = CHR ''E'' \<longleftrightarrow> c = CHR ''e'' \<or> c = CHR ''E''"
  "upper_char c = CHR ''L'' \<longleftrightarrow> c = CHR ''l'' \<or> c = CHR ''L''"
  by (auto simp: upper_char_def ascii_lowercase_def ascii_uppercase_def split: if_splits)

lemma lower_char_letters:
  "lower_char c = CHR ''b'' \<longleftrightarrow> c = CHR ''b'' \<or> c = CHR ''B''"
  "lower_char c = CHR ''u'' \<longleftrightarrow> c = CHR ''u'' \<or> c = CHR ''U''"
  "lower_char c = CHR ''y'' \<longleftrightarrow> c = CHR ''y'' \<or> c = CHR ''Y''"
  "lower_char c = CHR ''s'' \<longleftrightarrow> c = CHR ''s'' \<or> c = CHR ''S''"
  "lower_char c = CHR ''e'' \<longleftrightarrow> c = CHR ''e'' \<or> c = CHR ''E''"
  "lower_char c = CHR ''l'' \<longleftrightarrow> c = CHR ''l'' \<or> c = CHR ''L''"
  by (auto simp: lower_char_def ascii_lowercase_def ascii_uppercase_def split: if_splits)

text \<open>Equality with the upper-case word is equality up to case.\<close>

lemma upper_BUY_iff: "upper t = ''BUY'' \<longleftrightarrow> lower t = ''buy''"
  by (simp add: upper_def lower_def map_eq_Cons_conv upper_char_letters lower_char_letters)

lemma upper_SELL_iff: "upper t = ''SELL'' \<longleftrightarrow> lower t = ''sell''"
  by (simp add: upper_def lower_def map_eq_Cons_conv upper_char_letters lower_char_letters)

text \<open>
  Claim C7, as the code has it. \<open>validate_side\<close> strips the string before it compares:
  an ASCII string that equals \<open>BUY\<close> or \<open>SELL\<close> up to case once its surrounding
  whitespace is removed is answered with exactly \<open>BUY\<close> or \<open>SELL\<close>, and every other
  ASCII string fails with the \<open>ArgumentTypeError\<close>.
\<close>

theorem validate_side_strip_then_match:
  assumes "isascii s"
  shows "(lower (strip s) = ''buy'' \<longrightarrow> validate_side s = Inr ''BUY'')
       \<and> (lower (strip s) = ''sell'' \<longrightarrow> validate_side s = Inr ''SELL'')
       \<and> (lower (strip s) \<noteq> ''buy'' \<and> lower (strip s) \<noteq> ''sell''
            \<longrightarrow> validate_side s = Inl (ArgumentTypeError ''Side must be BUY or SELL''))"
  by (simp add: validate_side_def Let_def upper_BUY_iff [symmetric] upper_SELL_iff [symmetric])

theorem validate_side_strip_then_match_witness:
  "isascii '' Sell '' \<and> lower (strip '' Sell '') = ''sell''
   \<and> validate_side '' Sell '' = Inr ''SELL''"
proof -
  have a: "isascii '' Sell ''" by code_simp
  have l: "lower (strip '' Sell '') = ''sell''" by code_simp
  from validate_side_strip_then_match [OF a] l show ?thesis using a by blast
qed

text \<open>
  Claim C7 as stated fails: the string \<open>" buy"\<close>, with a leading space, equals neither
  \<open>BUY\<close> nor \<open>SELL\<close> up to case, and is accepted all the same.
\<close>

theorem validate_side_accepts_padded:
  "lower '' buy'' \<noteq> ''buy'' \<and> lower '' buy'' \<noteq> ''sell''
   \<and> validate_side '' buy'' = Inr ''BUY''"
  by code_simp

text \<open>
  Claim C10. The desktop bot's \<open>parse_decimal\<close> raises exactly when the conversion
  does, always the \<open>ValueError\<close>, and returns every converted value as it is, whatever
  its sign: there is no positivity check.
\<close>

theorem ui_parse_decimal_conversion_only:
  "((\<exists>e. ui_parse_decimal v = Inl e) \<longleftrightarrow> (\<exists>e. Decimal_str v = Inl e))
   \<and> (\<forall>e. ui_parse_decimal v = Inl e \<longrightarrow> e = ValueError ''Invalid number'')
   \<and> (\<forall>d. Decimal_str v = Inr d \<longrightarrow> ui_parse_decimal v = Inr d)"
proof (cases "Decimal_str v")
  case (Inl e)
  then have "e = InvalidOperation ''ConversionSyntax''" by (rule Decimal_str_raises)
  with Inl show ?thesis by (simp add: ui_parse_decimal_def)
next
  case (Inr d)
  then show ?thesis by (simp add: ui_parse_decimal_def)
qed

theorem ui_parse_decimal_conversion_only_witness:
  "Decimal_str ''-1.5'' = Inr (Fin True 15 (- 1)) \<and> dec_nonpositive (Fin True 15 (- 1))
   \<and> ui_parse_decimal ''-1.5'' = Inr (Fin True 15 (- 1))
   \<and> Decimal_str ''1.2.3'' = Inl (InvalidOperation ''ConversionSyntax'')
   \<and> ui_parse_decimal ''1.2.3'' = Inl (ValueError ''Invalid number'')"
proof -
  have a: "Decimal_str ''-1.5'' = Inr (Fin True 15 (- 1))" by code_simp
  have b: "dec_nonpositive (Fin True 15 (- 1))" by code_simp
  have c: "Decimal_str ''1.2.3'' = Inl (InvalidOperation ''ConversionSyntax'')" by code_simp
  from ui_parse_decimal_conversion_only [of "''-1.5''"] a
  have d: "ui_parse_decimal ''-1.5'' = Inr (Fin True 15 (- 1))" by blast
  from ui_parse_decimal_conversion_only [of "''1.2.3''"] c
  have e: "ui_parse_decimal ''1.2.3'' = Inl (ValueError ''Invalid number'')" by blast
  from a b c d e show ?thesis by blast
qed

section \<open>Properties of the order functions\<close>

lemma market_try_raises:
  "market_try cl symbol side qty w = (Inl e, w') \<Longrightarrow> is_Exception e"
  by (auto simp: market_try_def futures_create_order_def float_of_def Let_def
           split: sum.splits prod.splits decimal.splits)

lemma limit_try_raises:
  "limit_try cl symbol side qty price w = (Inl e, w') \<Longrightarrow> is_Exception e"
  by (auto simp: limit_try_def futures_create_order_def float_of_def Let_def
           split: sum.splits prod.splits decimal.splits)

lemma market_sent:
  assumes "float_of qty = Inr q"
  shows "market cl symbol side qty w =
           (Inr (as_result (fst (cl (market_order symbol side q) (exchange w)))),
            w\<lparr>exchange := snd (cl (market_order symbol side q) (exchange w)),
              orders := orders w @ [market_order symbol side q],
              events := events w @ [Sent (market_order symbol side q)]\<rparr>)"
  using assms
  by (auto simp: market_def market_try_def futures_create_order_def except_Exception_def
                 as_result_def Let_def split: prod.splits sum.splits)

lemma limit_sent:
  assumes "float_of qty = Inr q"
  shows "limit cl symbol side qty price w =
           (Inr (as_result (fst (cl (limit_order symbol side q (Str price)) (exchange w)))),
            w\<lparr>exchange := snd (cl (limit_order symbol side q (Str price)) (exchange w)),
              orders := orders w @ [limit_order symbol side q (Str price)],
              events := events w @ [Sent (limit_order symbol side q (Str price))]\<rparr>)"
  using assms
  by (auto simp: limit_def limit_try_def futures_create_order_def except_Exception_def
                 as_result_def Let_def split: prod.splits sum.splits)

lemma twap_loop_run:
  assumes iv: "0 \<le> interval" and fl: "float_of piece = Inr q"
  shows "n = nat (parts - i) \<Longrightarrow> i \<le> parts \<Longrightarrow>
         twap_loop cl symbol side piece parts interval i results w =
           (Inr (results @ fst (send_n cl (market_order symbol side q) n (exchange w))),
            w\<lparr>exchange := snd (send_n cl (market_order symbol side q) n (exchange w)),
              orders := orders w @ replicate n (market_order symbol side q),
              sleeps := sleeps w @ replicate (n - 1) interval,
              events := events w @ run_events (market_order symbol side q) interval n\<rparr>)"
proof (induction n arbitrary: i results w)
  case 0
  then have "\<not> i < parts" by simp
  then show ?case by (subst twap_loop.simps) simp
next
  case (Suc n)
  let ?req = "market_order symbol side q"
  obtain out ex1 where c: "cl ?req (exchange w) = (out, ex1)" by (cases "cl ?req (exchange w)")
  let ?w1 = "w\<lparr>exchange := ex1, orders := orders w @ [?req], events := events w @ [Sent ?req]\<rparr>"
  from Suc.prems have lt: "i < parts" and n: "n = nat (parts - (i + 1))" and le: "i + 1 \<le> parts"
    by auto
  have m: "market cl symbol side piece w = (Inr (as_result out), ?w1)"
    using market_sent [OF fl, of cl symbol side w] c by simp
  show ?case
  proof (cases "i < parts - 1")
    case True
    with n have "n \<noteq> 0" by simp
    then obtain k where nk: "n = Suc k" by (cases n) simp_all
    let ?w2 = "?w1\<lparr>sleeps := sleeps ?w1 @ [interval], events := events ?w1 @ [Slept interval]\<rparr>"
    have s: "time_sleep interval ?w1 = Inr ?w2" using iv by (simp add: time_sleep_def)
    have "twap_loop cl symbol side piece parts interval i results w =
          twap_loop cl symbol side piece parts interval (i + 1) (results @ [as_result out]) ?w2"
      using lt True m s by (subst twap_loop.simps) simp
    also have "\<dots> = (Inr ((results @ [as_result out]) @ fst (send_n cl ?req n (exchange ?w2))),
            ?w2\<lparr>exchange := snd (send_n cl ?req n (exchange ?w2)),
              orders := orders ?w2 @ replicate n ?req,
              sleeps := sleeps ?w2 @ replicate (n - 1) interval,
              events := events ?w2 @ run_events ?req interval n\<rparr>)"
      by (rule Suc.IH [OF n le])
    finally show ?thesis
      using c nk by (simp add: split_beta replicate_app_Cons_same)
  next
    case False
    then have n0: "n = 0" using n lt by auto
    have "twap_loop cl symbol side piece parts interval i results w =
          twap_loop cl symbol side piece parts interval (i + 1) (results @ [as_result out]) ?w1"
      using lt False m by (subst twap_loop.simps) simp
    also have "\<dots> = (Inr ((results @ [as_result out]) @ fst (send_n cl ?req n (exchange ?w1))),
            ?w1\<lparr>exchange := snd (send_n cl ?req n (exchange ?w1)),
              orders := orders ?w1 @ replicate n ?req,
              sleeps := sleeps ?w1 @ replicate (n - 1) interval,
              events := events ?w1 @ run_events ?req interval n\<rparr>)"
      by (rule Suc.IH [OF n le])
    finally show ?thesis
      using c n0 by (simp add: split_beta)
  qed
qed


lemma dec_fix_finite: "dec_fix s c e = Inr d \<Longrightarrow> is_finite d"
  by (auto simp: dec_fix_def Let_def split: if_splits prod.splits)

lemma dec_truediv_float: "dec_truediv a b = Inr d \<Longrightarrow> float_of d = Inr (Float d)"
  by (cases a; cases b)
     (auto simp: float_of_def Let_def split: if_splits prod.splits decimal.splits
           dest!: dec_fix_finite)


lemma twap_run:
  assumes "0 \<le> parts" "0 \<le> interval" "dec_truediv total_qty (dec_of_int parts) = Inr piece"
  shows "twap cl symbol side total_qty parts interval w =
           (Inr (fst (send_n cl (market_order symbol side (Float piece)) (nat parts) (exchange w))),
            w\<lparr>exchange := snd (send_n cl (market_order symbol side (Float piece)) (nat parts) (exchange w)),
              orders := orders w @ replicate (nat parts) (market_order symbol side (Float piece)),
              sleeps := sleeps w @ replicate (nat parts - 1) interval,
              events := events w
                @ run_events (market_order symbol side (Float piece)) interval (nat parts)\<rparr>)"
proof -
  have fl: "float_of piece = Inr (Float piece)" using assms(3) by (rule dec_truediv_float)
  show ?thesis
    using twap_loop_run [OF assms(2) fl, of "nat parts" parts 0 cl symbol side "[]" w] assms(1,3)
    by (simp add: twap_def)
qed

lemma pow10_pos: "(0::rat) < (if 0 \<le> e then 10 ^ nat e else 1 / 10 ^ nat (- e))"
  by simp

lemma dec_val_le_0_iff: "dec_val (Fin s c e) \<le> 0 \<longleftrightarrow> c = 0 \<or> s"
proof -
  let ?p = "(if 0 \<le> e then 10 ^ nat e else 1 / 10 ^ nat (- e)) :: rat"
  have p: "0 < ?p" by (rule pow10_pos)
  have "dec_val (Fin s c e) = (if s then - (of_nat c * ?p) else of_nat c * ?p)" by simp
  moreover have "0 \<le> (of_nat c :: rat) * ?p" using p by simp
  moreover have "(of_nat c :: rat) * ?p = 0 \<longleftrightarrow> c = 0" using p by simp
  ultimately show ?thesis by (cases s; cases "c = 0") (auto simp: not_le zero_less_mult_iff)
qed

lemma dec_le_zero_nonpositive: "dec_nonpositive d \<Longrightarrow> dec_le_zero d = Inr True"
proof (cases d)
  case (Fin s c e)
  assume "dec_nonpositive d"
  with Fin have "dec_val (Fin s c e) \<le> 0" by simp
  then have "c = 0 \<or> s" unfolding dec_val_le_0_iff .
  with Fin show ?thesis by simp
qed simp_all

lemma dec_le_zero_positive: "dec_positive d \<Longrightarrow> dec_le_zero d = Inr False"
proof (cases d)
  case (Fin s c e)
  assume "dec_positive d"
  with Fin have "\<not> dec_val (Fin s c e) \<le> 0" by simp
  then have "\<not> (c = 0 \<or> s)" unfolding dec_val_le_0_iff .
  with Fin show ?thesis by simp
qed simp_all

text \<open>
  Claim C6. A quantity string that does not convert, or converts to a value that is zero,
  negative or minus infinity, makes \<open>parse_decimal\<close> raise the \<open>ArgumentTypeError\<close>;
  a string that converts to a positive value is answered with that value. Whenever
  \<open>parse_decimal\<close> raises the \<open>ArgumentTypeError\<close> on the quantity of a command
  line, \<open>main\<close> exits with status 2 and the world is untouched: no order has been sent.
\<close>

theorem parse_decimal_positive_only:
  "(\<forall>e. Decimal_str v = Inl e \<longrightarrow>
        parse_decimal v = Inl (ArgumentTypeError (''Invalid number: '' @ v)))
   \<and> (\<forall>d. Decimal_str v = Inr d \<and> dec_nonpositive d \<longrightarrow>
        parse_decimal v = Inl (ArgumentTypeError ''Value must be positive''))
   \<and> (\<forall>d. Decimal_str v = Inr d \<and> dec_positive d \<longrightarrow> parse_decimal v = Inr d)
   \<and> (\<forall>m av cl w. argv_quantity av = v \<and> parse_decimal v = Inl (ArgumentTypeError m) \<longrightarrow>
        main cl av w = (Inl (SystemExit 2), w))"
proof (intro conjI allI impI)
  fix e assume "Decimal_str v = Inl e"
  moreover from this have "e = InvalidOperation ''ConversionSyntax''" by (rule Decimal_str_raises)
  ultimately show "parse_decimal v = Inl (ArgumentTypeError (''Invalid number: '' @ v))"
    by (simp add: parse_decimal_def)
next
  fix d assume "Decimal_str v = Inr d \<and> dec_nonpositive d"
  then show "parse_decimal v = Inl (ArgumentTypeError ''Value must be positive'')"
    by (simp add: parse_decimal_def dec_le_zero_nonpositive)
next
  fix d assume "Decimal_str v = Inr d \<and> dec_positive d"
  then show "parse_decimal v = Inr d"
    by (simp add: parse_decimal_def dec_le_zero_positive)
next
  fix m av and cl :: "('a, 'b) client" and w :: "'a world"
  assume a: "argv_quantity av = v \<and> parse_decimal v = Inl (ArgumentTypeError m)"
  have side: "\<And>s. arg_type validate_side s = Inl (SystemExit 2) \<or> (\<exists>r. arg_type validate_side s = Inr r)"
    by (simp add: arg_type_def validate_side_def Let_def)
  from a have q: "arg_type parse_decimal (argv_quantity av) = Inl (SystemExit 2)"
    by (simp add: arg_type_def)
  have "parse_args av = Inl (SystemExit 2)"
  proof (cases av)
    case (Market_args symbol sd quantity)
    with q side [of sd] show ?thesis by auto
  next
    case (Limit_args symbol sd quantity price)
    with q side [of sd] show ?thesis by auto
  next
    case (Twap_args symbol sd quantity parts interval)
    with q side [of sd] show ?thesis by auto
  qed
  then show "main cl av w = (Inl (SystemExit 2), w)" by (simp add: main_def)
qed

theorem parse_decimal_positive_only_witness:
  "Decimal_str ''-1'' = Inr (Fin True 1 0) \<and> dec_nonpositive (Fin True 1 0)
   \<and> parse_decimal ''-1'' = Inl (ArgumentTypeError ''Value must be positive'')
   \<and> argv_quantity (Market_args ''ethusdt'' ''sell'' ''-1'') = ''-1''
   \<and> main always_ok (Market_args ''ethusdt'' ''sell'' ''-1'') fresh = (Inl (SystemExit 2), fresh)
   \<and> Decimal_str ''abc'' = Inl (InvalidOperation ''ConversionSyntax'')
   \<and> parse_decimal ''abc'' = Inl (ArgumentTypeError ''Invalid number: abc'')
   \<and> Decimal_str ''0.01'' = Inr (Fin False 1 (- 2)) \<and> dec_positive (Fin False 1 (- 2))
   \<and> parse_decimal ''0.01'' = Inr (Fin False 1 (- 2))"
proof -
  have a: "Decimal_str ''-1'' = Inr (Fin True 1 0)" by code_simp
  have b: "dec_nonpositive (Fin True 1 0)" by code_simp
  have c: "Decimal_str ''abc'' = Inl (InvalidOperation ''ConversionSyntax'')" by code_simp
  have d: "Decimal_str ''0.01'' = Inr (Fin False 1 (- 2))" by code_simp
  have e: "dec_positive (Fin False 1 (- 2))" by code_simp
  have q: "argv_quantity (Market_args ''ethusdt'' ''sell'' ''-1'') = ''-1''" by simp
  from parse_decimal_positive_only [of "''-1''"] a b
  have p1: "parse_decimal ''-1'' = Inl (ArgumentTypeError ''Value must be positive'')" by blast
  from parse_decimal_positive_only [of "''-1''"] q p1
  have m: "main always_ok (Market_args ''ethusdt'' ''sell'' ''-1'') fresh = (Inl (SystemExit 2), fresh)"
    by blast
  from parse_decimal_positive_only [of "''abc''"] c
  have "parse_decimal ''abc'' = Inl (ArgumentTypeError (''Invalid number: '' @ ''abc''))" by blast
  then have p2: "parse_decimal ''abc'' = Inl (ArgumentTypeError ''Invalid number: abc'')" by simp
  from parse_decimal_positive_only [of "''0.01''"] d e
  have p3: "parse_decimal ''0.01'' = Inr (Fin False 1 (- 2))" by blast
  from a b c d e q p1 p2 p3 m show ?thesis by blast
qed

text \<open>
  Claim C3. \<open>market\<close> and \<open>limit\<close> always return a result and never raise: whatever
  the exchange call raises is caught, and the result is then the error dictionary that
  carries the exception's message.
\<close>

theorem gateway_never_raises:
  "(\<exists>r. fst (market cl symbol side qty w) = Inr r)
   \<and> (\<exists>r. fst (limit cl symbol side qty price w) = Inr r)
   \<and> (\<forall>q msg. float_of qty = Inr q \<and> fst (cl (market_order symbol side q) (exchange w)) = Inl msg
        \<longrightarrow> fst (market cl symbol side qty w) = Inr (Error msg))
   \<and> (\<forall>q msg. float_of qty = Inr q
          \<and> fst (cl (limit_order symbol side q (Str price)) (exchange w)) = Inl msg
        \<longrightarrow> fst (limit cl symbol side qty price w) = Inr (Error msg))"
proof (intro conjI allI impI)
  obtain out w' where t: "market_try cl symbol side qty w = (out, w')"
    by (cases "market_try cl symbol side qty w")
  show "\<exists>r. fst (market cl symbol side qty w) = Inr r"
  proof (cases out)
    case (Inl e)
    with t have "is_Exception e" by (simp add: market_try_raises)
    with t Inl show ?thesis by (simp add: market_def except_Exception_def)
  next
    case (Inr resp)
    with t show ?thesis by (simp add: market_def except_Exception_def)
  qed
next
  obtain out w' where t: "limit_try cl symbol side qty price w = (out, w')"
    by (cases "limit_try cl symbol side qty price w")
  show "\<exists>r. fst (limit cl symbol side qty price w) = Inr r"
  proof (cases out)
    case (Inl e)
    with t have "is_Exception e" by (simp add: limit_try_raises)
    with t Inl show ?thesis by (simp add: limit_def except_Exception_def)
  next
    case (Inr resp)
    with t show ?thesis by (simp add: limit_def except_Exception_def)
  qed
next
  fix q msg
  assume "float_of qty = Inr q \<and> fst (cl (market_order symbol side q) (exchange w)) = Inl msg"
  then show "fst (market cl symbol side qty w) = Inr (Error msg)"
    by (simp add: market_sent as_result_def)
next
  fix q msg
  assume "float_of qty = Inr q
            \<and> fst (cl (limit_order symbol side q (Str price)) (exchange w)) = Inl msg"
  then show "fst (limit cl symbol side qty price w) = Inr (Error msg)"
    by (simp add: limit_sent as_result_def)
qed

theorem gateway_never_raises_witness:
  "float_of (Fin False 1 (- 2)) = Inr (Float (Fin False 1 (- 2)))
   \<and> fst (second_fails (market_order ''btcusdt'' ''BUY'' (Float (Fin False 1 (- 2))))
            (exchange (fresh\<lparr>exchange := 1\<rparr>))) = Inl ''rejected''
   \<and> fst (market second_fails ''btcusdt'' ''BUY'' (Fin False 1 (- 2)) (fresh\<lparr>exchange := 1\<rparr>))
       = Inr (Error ''rejected'')
   \<and> fst (second_fails (limit_order ''btcusdt'' ''BUY'' (Float (Fin False 1 (- 2)))
                           (Str (Fin False 25000 0)))
            (exchange (fresh\<lparr>exchange := 1\<rparr>))) = Inl ''rejected''
   \<and> fst (limit second_fails ''btcusdt'' ''BUY'' (Fin False 1 (- 2)) (Fin False 25000 0)
            (fresh\<lparr>exchange := 1\<rparr>))
       = Inr (Error ''rejected'')"
proof -
  let ?w = "fresh\<lparr>exchange := 1\<rparr>"
  have a: "float_of (Fin False 1 (- 2)) = Inr (Float (Fin False 1 (- 2)))"
    by (simp add: float_of_def)
  have b: "fst (second_fails (market_order ''btcusdt'' ''BUY'' (Float (Fin False 1 (- 2))))
            (exchange ?w)) = Inl ''rejected''"
    by (simp add: second_fails_def)
  have c: "fst (second_fails (limit_order ''btcusdt'' ''BUY'' (Float (Fin False 1 (- 2)))
                           (Str (Fin False 25000 0))) (exchange ?w)) = Inl ''rejected''"
    by (simp add: second_fails_def)
  from gateway_never_raises [of second_fails "''btcusdt''" "''BUY''" "Fin False 1 (- 2)" ?w
        "Fin False 25000 0"] a b c
  show ?thesis by blast
qed

text \<open>
  Claim C5 does not hold of the code: \<open>--parts\<close> is converted by \<open>int\<close> alone, so
  \<open>--parts 0\<close> passes the argument parser, \<open>twap\<close> is entered, and its division raises
  \<open>DivisionByZero\<close>, which nothing catches. No order has been sent by then.
\<close>

theorem twap_zero_parts_divides:
  "main cl (Twap_args symbol ''BUY'' ''0.009'' (Some ''0'') None) w = (Inl DivisionByZero, w)"
proof -
  have a: "validate_side ''BUY'' = Inr ''BUY''" by code_simp
  have b: "parse_decimal ''0.009'' = Inr (Fin False 9 (- 3))" by code_simp
  have c: "py_int ''0'' = Some 0" by code_simp
  have "parse_args (Twap_args symbol ''BUY'' ''0.009'' (Some ''0'') None)
          = Inr (Twap_ns symbol ''BUY'' (Fin False 9 (- 3)) 0 5)"
    using a b c by (simp add: arg_type_def arg_int_def)
  then show ?thesis by (simp add: main_def twap_def dec_of_int_def)
qed

section \<open>Properties of the TWAP run\<close>

lemmas dec_eval = dec_of_int_def ndigits.simps strip_zeros.simps dec_fix_def adjusted_def
  prec_def Etop_def Etiny_def Emax_def Emin_def Let_def






text \<open>
  Claim C2. In a run of three parts in which the exchange raises on the second order,
  \<open>twap\<close> still returns three results: the first and the third are what the exchange
  answered to the first and third order, the second is the error with the exception's
  message. Three orders have been sent, one per step, with a pause after the first and
  after the second.
\<close>

theorem twap_failed_step_is_recorded:
  assumes "0 \<le> interval"
    and "dec_truediv total_qty (dec_of_int 3) = Inr piece"
    and "cl (market_order symbol side (Float piece)) (exchange w) = (out_a, ex_a)"
    and "cl (market_order symbol side (Float piece)) ex_a = (Inl msg, ex_b)"
    and "cl (market_order symbol side (Float piece)) ex_b = (out_c, ex_c)"
  shows "twap cl symbol side total_qty 3 interval w =
           (Inr [as_result out_a, Error msg, as_result out_c],
            w\<lparr>exchange := ex_c,
              orders := orders w @ replicate 3 (market_order symbol side (Float piece)),
              sleeps := sleeps w @ [interval, interval],
              events := events w
                @ [Sent (market_order symbol side (Float piece)), Slept interval,
                   Sent (market_order symbol side (Float piece)), Slept interval,
                   Sent (market_order symbol side (Float piece))]\<rparr>)"
proof -
  have n: "nat 3 = Suc (Suc (Suc 0))" by simp
  have r: "replicate (nat 3 - 1) interval = [interval, interval]" by (simp add: numeral_2_eq_2)
  have s: "send_n cl (market_order symbol side (Float piece)) (nat 3) (exchange w)
             = ([as_result out_a, Error msg, as_result out_c], ex_c)"
    unfolding n using assms(3,4,5) by (simp add: as_result_def)
  have e: "run_events (market_order symbol side (Float piece)) interval (nat 3)
             = [Sent (market_order symbol side (Float piece)), Slept interval,
                Sent (market_order symbol side (Float piece)), Slept interval,
                Sent (market_order symbol side (Float piece))]"
    unfolding n by simp
  show ?thesis
    using twap_run [OF _ assms(1,2), of cl symbol side w] r s e by simp
qed

theorem twap_failed_step_is_recorded_witness:
  "(0::int) \<le> 5
   \<and> dec_truediv (Fin False 9 (- 3)) (dec_of_int 3) = Inr (Fin False 3 (- 3))
   \<and> second_fails (market_order ''btcusdt'' ''BUY'' (Float (Fin False 3 (- 3)))) (exchange fresh)
        = (Inr 0, 1)
   \<and> second_fails (market_order ''btcusdt'' ''BUY'' (Float (Fin False 3 (- 3)))) 1
        = (Inl ''rejected'', 2)
   \<and> second_fails (market_order ''btcusdt'' ''BUY'' (Float (Fin False 3 (- 3)))) 2
        = (Inr 2, 3)
   \<and> twap second_fails ''btcusdt'' ''BUY'' (Fin False 9 (- 3)) 3 5 fresh =
       (Inr [Response 0, Error ''rejected'', Response 2],
        fresh\<lparr>exchange := 3,
          orders := orders fresh
             @ replicate 3 (market_order ''btcusdt'' ''BUY'' (Float (Fin False 3 (- 3)))),
          sleeps := sleeps fresh @ [5, 5],
          events := events fresh
             @ [Sent (market_order ''btcusdt'' ''BUY'' (Float (Fin False 3 (- 3)))), Slept 5,
                Sent (market_order ''btcusdt'' ''BUY'' (Float (Fin False 3 (- 3)))), Slept 5,
                Sent (market_order ''btcusdt'' ''BUY'' (Float (Fin False 3 (- 3))))]\<rparr>)"
proof -
  have d: "dec_truediv (Fin False 9 (- 3)) (dec_of_int 3) = Inr (Fin False 3 (- 3))"
    by (simp add: dec_eval)
  have c1: "second_fails (market_order ''btcusdt'' ''BUY'' (Float (Fin False 3 (- 3)))) (exchange fresh)
        = (Inr 0, 1)" by (simp add: second_fails_def fresh_def)
  have c2: "second_fails (market_order ''btcusdt'' ''BUY'' (Float (Fin False 3 (- 3)))) 1
        = (Inl ''rejected'', 2)" by (simp add: second_fails_def)
  have c3: "second_fails (market_order ''btcusdt'' ''BUY'' (Float (Fin False 3 (- 3)))) 2
        = (Inr 2, 3)" by (simp add: second_fails_def)
  have i: "(0::int) \<le> 5" by simp
  from twap_failed_step_is_recorded
         [where cl = second_fails and w = fresh and interval = 5 and symbol = "''btcusdt''"
            and side = "''BUY''" and total_qty = "Fin False 9 (- 3)" and piece = "Fin False 3 (- 3)"
            and out_a = "Inr 0" and ex_a = 1 and msg = "''rejected''" and ex_b = 2
            and out_c = "Inr 2" and ex_c = 3, OF i d c1 c2 c3] d c1 c2 c3
  show ?thesis by (simp add: as_result_def)
qed



section \<open>Properties of the adjustment to the exchange's increments\<close>

lemma dec_val_powi: "dec_val (Fin s c e) = (if s then - 1 else 1) * of_nat c * 10 powi e"
  by (simp add: power_int_def field_simps)

lemma ndigits_pos: "0 < ndigits c"
  by (subst ndigits.simps) simp

lemma ndigits_bounds: "0 < c \<Longrightarrow> 10 ^ (ndigits c - 1) \<le> c \<and> c < 10 ^ ndigits c"
proof (induction c rule: ndigits.induct)
  case (1 n)
  show ?case
  proof (cases "n < 10")
    case True
    with "1.prems" show ?thesis by (subst (1 2) ndigits.simps) simp
  next
    case False
    then have pos: "0 < n div 10" by simp
    from "1.IH" [OF False pos]
    have lo: "10 ^ (ndigits (n div 10) - 1) \<le> n div 10" and hi: "n div 10 < 10 ^ ndigits (n div 10)"
      by simp_all
    have nd: "ndigits n = Suc (ndigits (n div 10))" using False by (subst ndigits.simps) simp
    have p: "(10::nat) ^ ndigits (n div 10) = 10 * 10 ^ (ndigits (n div 10) - 1)"
      using ndigits_pos [of "n div 10"] by (cases "ndigits (n div 10)") simp_all
    have "10 ^ ndigits (n div 10) \<le> 10 * (n div 10)" using lo p by simp
    also have "\<dots> \<le> n" by simp
    finally have a: "10 ^ (ndigits n - 1) \<le> n" using nd by simp
    have "n < 10 * (n div 10) + 10" by presburger
    also have "\<dots> \<le> 10 * 10 ^ ndigits (n div 10)" using hi by simp
    finally have b: "n < 10 ^ ndigits n" using nd by simp
    from a b show ?thesis by simp
  qed
qed

lemma ndigits_le: assumes "c < 10 ^ k" and "0 < k" shows "ndigits c \<le> k"
proof (cases "c = 0")
  case True
  then have "ndigits c = 1" by (subst ndigits.simps) simp
  with assms(2) show ?thesis by simp
next
  case False
  then have "10 ^ (ndigits c - 1) \<le> c" using ndigits_bounds [of c] by simp
  from this assms(1) have "(10::nat) ^ (ndigits c - 1) < 10 ^ k" by (rule le_less_trans)
  then have "ndigits c - 1 < k" by simp
  then show ?thesis by simp
qed


text \<open>Magnitude of a positive coefficient at an exponent.\<close>

lemma magnitude_bounds:
  assumes "0 < c"
  shows "10 powi (adjusted c e) \<le> (of_nat c :: rat) * 10 powi e"
    and "(of_nat c :: rat) * 10 powi e < 10 powi (adjusted c e + 1)"
proof -
  from ndigits_bounds [OF assms]
  have lo: "10 ^ (ndigits c - 1) \<le> c" and hi: "c < 10 ^ ndigits c" by simp_all
  have p: "(0::rat) < 10 powi e" by simp
  have a: "adjusted c e = int (ndigits c - 1) + e"
    using ndigits_pos [of c] by (simp add: adjusted_def)
  have "(10::rat) powi (adjusted c e) = 10 ^ (ndigits c - 1) * 10 powi e"
    unfolding a by (simp add: power_int_add)
  also have "\<dots> \<le> of_nat c * 10 powi e"
  proof -
    have "(10::rat) ^ (ndigits c - 1) \<le> of_nat c"
      using lo by (metis of_nat_le_iff of_nat_numeral of_nat_power)
    then show ?thesis using p by simp
  qed
  finally show "10 powi (adjusted c e) \<le> (of_nat c :: rat) * 10 powi e" .
  have b: "adjusted c e + 1 = int (ndigits c) + e" by (simp add: adjusted_def)
  have "(of_nat c :: rat) < 10 ^ ndigits c"
    using hi by (metis of_nat_less_iff of_nat_numeral of_nat_power)
  then have "(of_nat c :: rat) * 10 powi e < 10 ^ ndigits c * 10 powi e" using p by simp
  also have "\<dots> = 10 powi (adjusted c e + 1)" unfolding b by (simp add: power_int_add)
  finally show "(of_nat c :: rat) * 10 powi e < 10 powi (adjusted c e + 1)" .
qed


lemma powi_split: "(10::rat) powi a = 10 powi b * 10 powi (a - b)"
  by (simp add: power_int_add [symmetric])

lemma ratio_align:
  assumes "0 < cs"
  shows "(of_nat (if es \<le> eq then cq * 10 ^ nat (eq - es) else cq) :: rat)
           / of_nat (if es \<le> eq then cs else cs * 10 ^ nat (es - eq))
         = (of_nat cq * 10 powi eq) / (of_nat cs * 10 powi es)"
proof (cases "es \<le> eq")
  case True
  have "(10::rat) powi eq = 10 powi es * 10 ^ nat (eq - es)"
    using True powi_split [of eq es] by (simp add: power_int_def)
  then show ?thesis using True assms by simp
next
  case False
  have "(10::rat) powi es = 10 powi eq * 10 ^ nat (es - eq)"
    using False powi_split [of es eq] by (simp add: power_int_def)
  then show ?thesis using False assms by simp
qed

lemma dec_floordiv_floor:
  assumes cs: "0 < cs"
    and small: "\<lfloor>(of_nat cq * 10 powi eq) / (of_nat cs * 10 powi es :: rat)\<rfloor> < 10 ^ prec"
  shows "dec_floordiv (Fin False cq eq) (Fin False cs es)
           = Inr (Fin False (nat \<lfloor>(of_nat cq * 10 powi eq) / (of_nat cs * 10 powi es :: rat)\<rfloor>) 0)"
proof -
  define q :: rat where "q = of_nat cq * 10 powi eq"
  define s :: rat where "s = of_nat cs * 10 powi es"
  have spos: "0 < s" using cs by (simp add: s_def)
  have qnn: "0 \<le> q" by (simp add: q_def)
  let ?d = "adjusted cq eq - adjusted cs es"
  let ?A = "if es \<le> eq then cq * 10 ^ nat (eq - es) else cq"
  let ?B = "if es \<le> eq then cs else cs * 10 ^ nat (es - eq)"
  have ratio: "(of_nat ?A :: rat) / of_nat ?B = q / s"
    unfolding q_def s_def using cs by (rule ratio_align)
  have fl: "\<lfloor>q / s\<rfloor> = int (?A div ?B)"
    unfolding ratio [symmetric] by (simp only: floor_divide_of_nat_eq)
  consider (zero) "cq = 0" | (tiny) "0 < cq" "?d \<le> - 2"
    | (mid) "0 < cq" "- 2 < ?d" "?d \<le> int prec" | (big) "0 < cq" "int prec < ?d"
    by linarith
  then have "dec_floordiv (Fin False cq eq) (Fin False cs es) = Inr (Fin False (nat \<lfloor>q / s\<rfloor>) 0)"
  proof cases
    case zero
    then show ?thesis using cs by (simp add: q_def)
  next
    case tiny
    have "q < 10 powi (adjusted cq eq + 1)" unfolding q_def using tiny(1) by (rule magnitude_bounds)
    also have "\<dots> \<le> 10 powi (adjusted cs es)" using tiny(2) by (intro power_int_increasing) simp_all
    also have "\<dots> \<le> s" unfolding s_def using cs by (rule magnitude_bounds)
    finally have "q / s < 1" using spos by simp
    moreover have "0 \<le> q / s" using qnn spos by simp
    ultimately have "\<lfloor>q / s\<rfloor> = 0" by (simp add: floor_eq_iff)
    then show ?thesis using cs tiny by (simp add: Let_def)
  next
    case mid
    have "int (?A div ?B) < 10 ^ prec" using small fl by (simp add: q_def s_def)
    then have lt: "?A div ?B < 10 ^ prec" by (metis of_nat_less_iff of_nat_numeral of_nat_power)
    have "dec_floordiv (Fin False cq eq) (Fin False cs es) = Inr (Fin False (?A div ?B) 0)"
      using cs mid lt by (simp add: Let_def)
    then show ?thesis using fl by simp
  next
    case big
    have "10 powi (adjusted cq eq) \<le> q" unfolding q_def using big(1) by (rule magnitude_bounds)
    moreover have "s < 10 powi (adjusted cs es + 1)" unfolding s_def using cs by (rule magnitude_bounds)
    moreover have "(10::rat) powi (adjusted cq eq) = 10 powi (adjusted cs es + 1) * 10 powi (?d - 1)"
      using powi_split [of "adjusted cq eq" "adjusted cs es + 1"] by (simp add: algebra_simps)
    moreover have "(10::rat) ^ prec \<le> 10 powi (?d - 1)"
    proof -
      have "(10::rat) powi int prec \<le> 10 powi (?d - 1)"
        using big(2) by (intro power_int_increasing) simp_all
      then show ?thesis by simp
    qed
    ultimately have "10 ^ prec * s \<le> q"
    proof -
      assume a: "10 powi (adjusted cq eq) \<le> q" and b: "s < 10 powi (adjusted cs es + 1)"
        and c: "(10::rat) powi (adjusted cq eq) = 10 powi (adjusted cs es + 1) * 10 powi (?d - 1)"
        and d: "(10::rat) ^ prec \<le> 10 powi (?d - 1)"
      have "10 ^ prec * s \<le> 10 powi (?d - 1) * 10 powi (adjusted cs es + 1)"
        using b d spos by (intro mult_mono) simp_all
      also have "\<dots> = 10 powi (adjusted cq eq)" using c by (simp add: mult.commute)
      finally show ?thesis using a by simp
    qed
    then have "10 ^ prec \<le> q / s" using spos by (simp add: pos_le_divide_eq)
    then have "(10::int) ^ prec \<le> \<lfloor>q / s\<rfloor>"
      by (metis le_floor_iff of_int_numeral of_int_power)
    with small show ?thesis by (simp add: q_def s_def)
  qed
  then show ?thesis by (simp add: q_def s_def)
qed


lemma dec_mul_exact:
  assumes fits: "n * cs < 10 ^ prec" and lo: "Etiny \<le> es" and hi: "es \<le> Etop"
  shows "\<exists>r. dec_mul (Fin False n 0) (Fin False cs es) = Inr r
              \<and> dec_val r = of_nat n * dec_val (Fin False cs es)"
proof (cases "n * cs = 0")
  case True
  then have "dec_mul (Fin False n 0) (Fin False cs es) = Inr (Fin False 0 (min (max es Etiny) Emax))"
    by (simp add: dec_fix_def)
  moreover have "(of_nat n :: rat) * dec_val (Fin False cs es) = 0" using True by auto
  ultimately show ?thesis by simp
next
  case False
  have "ndigits (n * cs) \<le> prec" using fits by (rule ndigits_le) (simp add: prec_def)
  then have a: "int (ndigits (n * cs)) + es - int prec \<le> es" by simp
  with hi have b: "\<not> int (ndigits (n * cs)) + es - int prec > Etop" by simp
  from a lo have c: "\<not> es < max (int (ndigits (n * cs)) + es - int prec) Etiny" by simp
  have "dec_mul (Fin False n 0) (Fin False cs es) = Inr (Fin False (n * cs) es)"
    using False b c by (simp add: dec_fix_def Let_def)
  then show ?thesis by simp
qed

lemma floor_to_step:
  assumes cs: "0 < cs" and lo: "Etiny \<le> es" and hi: "es \<le> Etop"
    and fits: "\<lfloor>dec_val (Fin False c e) / dec_val (Fin False cs es)\<rfloor> * int cs < 10 ^ prec"
  shows "\<exists>r. (case dec_floordiv (Fin False c e) (Fin False cs es) of
                 Inl ex \<Rightarrow> Inl ex
               | Inr n \<Rightarrow> dec_mul n (Fin False cs es)) = Inr r
            \<and> dec_val r = of_int \<lfloor>dec_val (Fin False c e) / dec_val (Fin False cs es)\<rfloor>
                             * dec_val (Fin False cs es)
            \<and> dec_val r \<le> dec_val (Fin False c e)
            \<and> dec_val (Fin False c e) < dec_val r + dec_val (Fin False cs es)"
proof -
  define q where "q = dec_val (Fin False c e)"
  define s where "s = dec_val (Fin False cs es)"
  define k where "k = \<lfloor>q / s\<rfloor>"
  have q: "q = of_nat c * 10 powi e" and s: "s = of_nat cs * 10 powi es"
    unfolding q_def s_def by (simp_all only: dec_val_powi) simp_all
  have spos: "0 < s" using cs by (simp add: s)
  have qnn: "0 \<le> q" by (simp add: q)
  have knn: "0 \<le> k" unfolding k_def using qnn spos by simp
  have kcs: "k * int cs < 10 ^ prec" using fits by (simp add: k_def q_def s_def)
  have "k * 1 \<le> k * int cs" using knn cs by (intro mult_left_mono) simp_all
  with kcs have ksmall: "k < 10 ^ prec" by simp
  have fd: "dec_floordiv (Fin False c e) (Fin False cs es) = Inr (Fin False (nat k) 0)"
    using dec_floordiv_floor [OF cs, of c e es] ksmall by (simp add: k_def q s)
  have "int (nat k * cs) < 10 ^ prec" using kcs knn by simp
  then have "nat k * cs < 10 ^ prec" by (metis of_nat_less_iff of_nat_numeral of_nat_power)
  from dec_mul_exact [OF this lo hi] obtain r
    where r: "dec_mul (Fin False (nat k) 0) (Fin False cs es) = Inr r"
      and v: "dec_val r = of_nat (nat k) * dec_val (Fin False cs es)" by blast
  have v': "dec_val r = of_int k * s" using v knn by (simp add: s_def)
  have "of_int k \<le> q / s" unfolding k_def by simp
  then have le: "of_int k * s \<le> q" using spos by (simp add: pos_le_divide_eq)
  have "q / s < of_int k + 1" unfolding k_def by linarith
  then have "q < (of_int k + 1) * s" using spos by (simp add: pos_divide_less_eq)
  then have lt: "q < of_int k * s + s" by (simp add: algebra_simps)
  show ?thesis
    using fd r v' le lt by (simp add: k_def q_def s_def)
qed


text \<open>
  Claim C9, as the code has it. \<open>adjust_quantity\<close> and \<open>adjust_price\<close> compute
  \<open>(x // step) * step\<close>. For a non-negative \<open>x\<close> and a positive step read from the
  filter, the result is the integer part of \<open>x / step\<close> times the step: the greatest
  multiple of the step that does not exceed \<open>x\<close>. This holds as long as neither
  operation rounds or traps: the coefficient of the result has at most 28 digits and the
  step's exponent lies within the context's range.
\<close>

theorem adjust_rounds_down_to_step:
  assumes raw: "Decimal_str raw = Inr (Fin False cs es)" and cs: "0 < cs"
    and lo: "Etiny \<le> es" and hi: "es \<le> Etop"
    and fits: "\<lfloor>dec_val (Fin False c e) / dec_val (Fin False cs es)\<rfloor> * int cs < 10 ^ prec"
  shows "(lot_size ''stepSize'' = Some raw \<longrightarrow>
            (\<exists>r. adjust_quantity (Fin False c e) lot_size = Inr r
               \<and> dec_val r = of_int \<lfloor>dec_val (Fin False c e) / dec_val (Fin False cs es)\<rfloor>
                                * dec_val (Fin False cs es)
               \<and> dec_val r \<le> dec_val (Fin False c e)
               \<and> dec_val (Fin False c e) < dec_val r + dec_val (Fin False cs es)))
       \<and> (price_filter ''tickSize'' = Some raw \<longrightarrow>
            (\<exists>r. adjust_price (Fin False c e) price_filter = Inr r
               \<and> dec_val r = of_int \<lfloor>dec_val (Fin False c e) / dec_val (Fin False cs es)\<rfloor>
                                * dec_val (Fin False cs es)
               \<and> dec_val r \<le> dec_val (Fin False c e)
               \<and> dec_val (Fin False c e) < dec_val r + dec_val (Fin False cs es)))"
  using floor_to_step [OF cs lo hi fits] raw
  by (simp add: adjust_quantity_def adjust_price_def del: dec_val.simps dec_floordiv.simps dec_mul.simps)

lemma adjust_quantity_example:
  "adjust_quantity (Fin False 19 (- 4)) example_lot_size = Inr (Fin False 1 (- 3))"
proof -
  have "Decimal_str ''0.001'' = Inr (Fin False 1 (- 3))" by code_simp
  then show ?thesis by (simp add: adjust_quantity_def example_lot_size_def dec_eval)
qed

lemma adjust_price_example:
  "adjust_price (Fin False 2500059 (- 2)) example_price_filter = Inr (Fin False 2500050 (- 2))"
proof -
  have "Decimal_str ''0.10'' = Inr (Fin False 10 (- 2))" by code_simp
  then show ?thesis by (simp add: adjust_price_def example_price_filter_def dec_eval)
qed

theorem adjust_rounds_down_to_step_witness:
  "Decimal_str ''0.001'' = Inr (Fin False 1 (- 3)) \<and> (0::nat) < 1
   \<and> Etiny \<le> - 3 \<and> - 3 \<le> Etop
   \<and> \<lfloor>dec_val (Fin False 19 (- 4)) / dec_val (Fin False 1 (- 3))\<rfloor> * int 1 < 10 ^ prec
   \<and> example_lot_size ''stepSize'' = Some ''0.001''
   \<and> adjust_quantity (Fin False 19 (- 4)) example_lot_size = Inr (Fin False 1 (- 3))
   \<and> dec_val (Fin False 1 (- 3)) \<le> dec_val (Fin False 19 (- 4))
   \<and> dec_val (Fin False 19 (- 4)) < dec_val (Fin False 1 (- 3)) + dec_val (Fin False 1 (- 3))
   \<and> Decimal_str ''0.10'' = Inr (Fin False 10 (- 2)) \<and> (0::nat) < 10
   \<and> Etiny \<le> - 2 \<and> - 2 \<le> Etop
   \<and> \<lfloor>dec_val (Fin False 2500059 (- 2)) / dec_val (Fin False 10 (- 2))\<rfloor> * int 10 < 10 ^ prec
   \<and> example_price_filter ''tickSize'' = Some ''0.10''
   \<and> adjust_price (Fin False 2500059 (- 2)) example_price_filter = Inr (Fin False 2500050 (- 2))
   \<and> dec_val (Fin False 2500050 (- 2)) \<le> dec_val (Fin False 2500059 (- 2))
   \<and> dec_val (Fin False 2500059 (- 2))
        < dec_val (Fin False 2500050 (- 2)) + dec_val (Fin False 10 (- 2))"
proof -
  have raw: "Decimal_str ''0.001'' = Inr (Fin False 1 (- 3))" by code_simp
  have cs: "(0::nat) < 1" by simp
  have lo: "Etiny \<le> - 3" by (simp add: Etiny_def Emin_def prec_def)
  have hi: "- 3 \<le> Etop" by (simp add: Etop_def Emax_def prec_def)
  have fl: "\<lfloor>dec_val (Fin False 19 (- 4)) / dec_val (Fin False 1 (- 3))\<rfloor> = 1"
    by (simp add: floor_eq_iff)
  have fits: "\<lfloor>dec_val (Fin False 19 (- 4)) / dec_val (Fin False 1 (- 3))\<rfloor> * int 1 < 10 ^ prec"
    unfolding fl by (simp add: prec_def)
  have key: "example_lot_size ''stepSize'' = Some ''0.001''" by (simp add: example_lot_size_def)
  from adjust_rounds_down_to_step [OF raw cs lo hi fits, of example_lot_size Map.empty] key
  obtain r where r: "adjust_quantity (Fin False 19 (- 4)) example_lot_size = Inr r"
    and le: "dec_val r \<le> dec_val (Fin False 19 (- 4))"
    and lt: "dec_val (Fin False 19 (- 4)) < dec_val r + dec_val (Fin False 1 (- 3))"
    by blast
  from r adjust_quantity_example have req: "r = Fin False 1 (- 3)" by simp
  have raw': "Decimal_str ''0.10'' = Inr (Fin False 10 (- 2))" by code_simp
  have cs': "(0::nat) < 10" by simp
  have lo': "Etiny \<le> - 2" by (simp add: Etiny_def Emin_def prec_def)
  have hi': "- 2 \<le> Etop" by (simp add: Etop_def Emax_def prec_def)
  have fl': "\<lfloor>dec_val (Fin False 2500059 (- 2)) / dec_val (Fin False 10 (- 2))\<rfloor> = 250005"
    by (simp add: floor_eq_iff)
  have fits': "\<lfloor>dec_val (Fin False 2500059 (- 2)) / dec_val (Fin False 10 (- 2))\<rfloor> * int 10
                 < 10 ^ prec"
    unfolding fl' by (simp add: prec_def)
  have key': "example_price_filter ''tickSize'' = Some ''0.10''"
    by (simp add: example_price_filter_def)
  from adjust_rounds_down_to_step [OF raw' cs' lo' hi' fits', of Map.empty example_price_filter] key'
  obtain p where p: "adjust_price (Fin False 2500059 (- 2)) example_price_filter = Inr p"
    and le': "dec_val p \<le> dec_val (Fin False 2500059 (- 2))"
    and lt': "dec_val (Fin False 2500059 (- 2)) < dec_val p + dec_val (Fin False 10 (- 2))"
    by blast
  from p adjust_price_example have peq: "p = Fin False 2500050 (- 2)" by simp
  have one: "Decimal_str ''0.001'' = Inr (Fin False 1 (- 3)) \<and> (0::nat) < 1
   \<and> Etiny \<le> - 3 \<and> - 3 \<le> Etop
   \<and> \<lfloor>dec_val (Fin False 19 (- 4)) / dec_val (Fin False 1 (- 3))\<rfloor> * int 1 < 10 ^ prec
   \<and> example_lot_size ''stepSize'' = Some ''0.001''
   \<and> adjust_quantity (Fin False 19 (- 4)) example_lot_size = Inr (Fin False 1 (- 3))
   \<and> dec_val (Fin False 1 (- 3)) \<le> dec_val (Fin False 19 (- 4))
   \<and> dec_val (Fin False 19 (- 4)) < dec_val (Fin False 1 (- 3)) + dec_val (Fin False 1 (- 3))"
    using raw cs lo hi fits key r le lt unfolding req by blast
  have two: "Decimal_str ''0.10'' = Inr (Fin False 10 (- 2)) \<and> (0::nat) < 10
   \<and> Etiny \<le> - 2 \<and> - 2 \<le> Etop
   \<and> \<lfloor>dec_val (Fin False 2500059 (- 2)) / dec_val (Fin False 10 (- 2))\<rfloor> * int 10 < 10 ^ prec
   \<and> example_price_filter ''tickSize'' = Some ''0.10''
   \<and> adjust_price (Fin False 2500059 (- 2)) example_price_filter = Inr (Fin False 2500050 (- 2))
   \<and> dec_val (Fin False 2500050 (- 2)) \<le> dec_val (Fin False 2500059 (- 2))
   \<and> dec_val (Fin False 2500059 (- 2))
        < dec_val (Fin False 2500050 (- 2)) + dec_val (Fin False 10 (- 2))"
    using raw' cs' lo' hi' fits' key' p le' lt' unfolding peq by blast
  from one two show ?thesis by (intro conjI) (elim conjE, assumption)+
qed

text \<open>
  Claim C9 as stated fails: the result is not the nearest multiple. 0.0019 at step 0.001
  gives 0.001, though the multiple 0.002 is nearer; 25000.59 at tick 0.10 gives 25000.50,
  though 25000.60 is nearer.
\<close>

theorem adjust_is_not_nearest:
  "Decimal_str ''0.001'' = Inr (Fin False 1 (- 3))
   \<and> adjust_quantity (Fin False 19 (- 4)) example_lot_size = Inr (Fin False 1 (- 3))
   \<and> \<bar>dec_val (Fin False 19 (- 4)) - 2 * dec_val (Fin False 1 (- 3))\<bar>
        < \<bar>dec_val (Fin False 19 (- 4)) - dec_val (Fin False 1 (- 3))\<bar>
   \<and> Decimal_str ''0.10'' = Inr (Fin False 10 (- 2))
   \<and> adjust_price (Fin False 2500059 (- 2)) example_price_filter = Inr (Fin False 2500050 (- 2))
   \<and> \<bar>dec_val (Fin False 2500059 (- 2)) - 250006 * dec_val (Fin False 10 (- 2))\<bar>
        < \<bar>dec_val (Fin False 2500059 (- 2)) - dec_val (Fin False 2500050 (- 2))\<bar>"
proof -
  have a: "Decimal_str ''0.001'' = Inr (Fin False 1 (- 3))" by code_simp
  have b: "Decimal_str ''0.10'' = Inr (Fin False 10 (- 2))" by code_simp
  have c: "\<bar>dec_val (Fin False 19 (- 4)) - 2 * dec_val (Fin False 1 (- 3))\<bar>
        < \<bar>dec_val (Fin False 19 (- 4)) - dec_val (Fin False 1 (- 3))\<bar>" by simp
  have d: "\<bar>dec_val (Fin False 2500059 (- 2)) - 250006 * dec_val (Fin False 10 (- 2))\<bar>
        < \<bar>dec_val (Fin False 2500059 (- 2)) - dec_val (Fin False 2500050 (- 2))\<bar>" by simp
  from a b c d adjust_quantity_example adjust_price_example show ?thesis by blast
qed

section \<open>Existence of the piece size\<close>

lemma dec_fix_defined:
  assumes "c = 0 \<or> int (ndigits c) + e \<le> Emax"
  shows "\<exists>d. dec_fix s c e = Inr d"
proof (cases "c = 0")
  case True
  then show ?thesis by (simp add: dec_fix_def)
next
  case False
  with assms have a: "int (ndigits c) + e - int prec < Etop" by (simp add: Etop_def)
  have b: "Etiny < Etop" by (simp add: Etiny_def Etop_def Emin_def Emax_def prec_def)
  from a b have c: "max (int (ndigits c) + e - int prec) Etiny + 1 \<le> Etop" by simp
  show ?thesis
    using False a c by (auto simp: dec_fix_def Let_def split: if_splits)
qed

lemma quotient_digits:
  assumes c: "0 < c" and n: "0 < n"
  shows "(if 0 \<le> int (ndigits n) - int (ndigits c) + int prec + 1
          then (c * 10 ^ nat (int (ndigits n) - int (ndigits c) + int prec + 1)) div n
          else c div (n * 10 ^ nat (- (int (ndigits n) - int (ndigits c) + int prec + 1))))
         < 10 ^ (prec + 2)"
proof -
  from ndigits_bounds [OF c] have chi: "c < 10 ^ ndigits c" by simp
  from ndigits_bounds [OF n] have nlo: "10 ^ (ndigits n - 1) \<le> n" by simp
  have np: "0 < ndigits n" by (rule ndigits_pos)
  then have e1: "ndigits n + prec + 1 = (prec + 2) + (ndigits n - 1)" by simp
  have e2: "\<And>j. ndigits n + prec + 1 + j = (prec + 2) + ((ndigits n - 1) + j)"
    using np by simp
  show ?thesis
  proof (cases "0 \<le> int (ndigits n) - int (ndigits c) + int prec + 1")
    case True
    define k where "k = nat (int (ndigits n) - int (ndigits c) + int prec + 1)"
    have k: "ndigits c + k = ndigits n + prec + 1" using True by (simp add: k_def)
    have "c * 10 ^ k < 10 ^ ndigits c * 10 ^ k" using chi by simp
    also have "\<dots> = 10 ^ (ndigits n + prec + 1)" by (simp add: power_add [symmetric] k)
    also have "\<dots> = 10 ^ (prec + 2) * 10 ^ (ndigits n - 1)"
      unfolding e1 by (simp only: power_add)
    also have "\<dots> \<le> 10 ^ (prec + 2) * n" using nlo by simp
    finally have "(c * 10 ^ k) div n < 10 ^ (prec + 2)" by (rule less_mult_imp_div_less)
    then show ?thesis using True by (simp add: k_def)
  next
    case False
    define j where "j = nat (- (int (ndigits n) - int (ndigits c) + int prec + 1))"
    have j: "ndigits c = ndigits n + prec + 1 + j" using False by (simp add: j_def)
    have "c < 10 ^ (ndigits n + prec + 1 + j)" using chi j by simp
    also have "\<dots> = 10 ^ (prec + 2) * (10 ^ (ndigits n - 1) * 10 ^ j)"
      unfolding e2 by (simp only: power_add)
    also have "\<dots> \<le> 10 ^ (prec + 2) * (n * 10 ^ j)" using nlo by simp
    finally have "c div (n * 10 ^ j) < 10 ^ (prec + 2)" by (rule less_mult_imp_div_less)
    then show ?thesis using False by (simp add: j_def)
  qed
qed

lemma ndigits_div10: "10 \<le> c \<Longrightarrow> ndigits c = Suc (ndigits (c div 10))"
  by (subst ndigits.simps) simp

lemma strip_zeros_digits:
  "0 < coeff \<Longrightarrow> strip_zeros coeff ex ideal = (c', e')
     \<Longrightarrow> 0 < c' \<and> int (ndigits c') + e' = int (ndigits coeff) + ex"
proof (induction coeff ex ideal rule: strip_zeros.induct)
  case (1 coeff ex ideal_exp)
  show ?case
  proof (cases "ex < ideal_exp \<and> coeff mod 10 = 0")
    case True
    with "1.prems"(1) have ge: "10 \<le> coeff" by presburger
    then have pos: "0 < coeff div 10" by simp
    from "1.prems"(2) True have "strip_zeros (coeff div 10) (ex + 1) ideal_exp = (c', e')"
      by (subst (asm) strip_zeros.simps) simp
    from "1.IH" [OF True pos this] ndigits_div10 [OF ge] show ?thesis by simp
  next
    case False
    with "1.prems" show ?thesis by (subst (asm) strip_zeros.simps) auto
  qed
qed


text \<open>
  The condition of the TWAP properties that the piece size exists is met by every
  positive finite quantity below \<open>10 ^ (Emax - 1)\<close> and every positive number of
  parts: the division then neither traps nor overflows.
\<close>

lemma piece_size_exists:
  assumes c: "0 < c" and range: "adjusted c e + 2 \<le> Emax" and parts: "1 \<le> parts"
  shows "\<exists>piece. dec_truediv (Fin False c e) (dec_of_int parts) = Inr piece"
proof -
  define n where "n = nat \<bar>parts\<bar>"
  have n: "0 < n" using parts by (simp add: n_def)
  have d: "dec_of_int parts = Fin False n 0" using parts by (simp add: dec_of_int_def n_def)
  define shift where "shift = int (ndigits n) - int (ndigits c) + int prec + 1"
  define coeff where "coeff = (if 0 \<le> shift then (c * 10 ^ nat shift) div n
                                else c div (n * 10 ^ nat (- shift)))"
  define remainder where "remainder = (if 0 \<le> shift then (c * 10 ^ nat shift) mod n
                                else c mod (n * 10 ^ nat (- shift)))"
  have small: "coeff < 10 ^ (prec + 2)"
    unfolding coeff_def shift_def using quotient_digits [OF c n] by simp
  have np: "1 \<le> int (ndigits n)" using ndigits_pos [of n] by simp
  have ex: "int (prec + 3) + (e - 0 - shift) \<le> Emax"
    using range np by (simp add: shift_def adjusted_def)
  have unfolded: "dec_truediv (Fin False c e) (dec_of_int parts) =
      (if remainder \<noteq> 0
       then dec_fix False (if coeff mod 5 = 0 then coeff + 1 else coeff) (e - 0 - shift)
       else (let (coeff', ex') = strip_zeros coeff (e - 0 - shift) (e - 0)
             in dec_fix False coeff' ex'))"
    using c n unfolding d by (simp add: Let_def shift_def coeff_def remainder_def)
  show ?thesis
  proof (cases "remainder \<noteq> 0")
    case True
    let ?cx = "if coeff mod 5 = 0 then coeff + 1 else coeff"
    have "?cx < 10 ^ (prec + 3)"
    proof -
      have "?cx \<le> 10 ^ (prec + 2)" using small by simp
      also have "\<dots> < 10 ^ (prec + 3)" by (rule power_strict_increasing) simp_all
      finally show ?thesis .
    qed
    then have "ndigits ?cx \<le> prec + 3" by (rule ndigits_le) simp
    with ex have "int (ndigits ?cx) + (e - 0 - shift) \<le> Emax" by simp
    then have "\<exists>d. dec_fix False ?cx (e - 0 - shift) = Inr d" by (intro dec_fix_defined) simp
    with True unfolded show ?thesis by simp
  next
    case False
    obtain c' e' where st: "strip_zeros coeff (e - 0 - shift) (e - 0) = (c', e')"
      by (cases "strip_zeros coeff (e - 0 - shift) (e - 0)")
    have "c * 10 ^ nat shift = coeff * n" if "0 \<le> shift"
      using that False by (simp add: coeff_def remainder_def mod_eq_0_iff_dvd)
    moreover have "c = coeff * (n * 10 ^ nat (- shift))" if "\<not> 0 \<le> shift"
      using that False by (simp add: coeff_def remainder_def mod_eq_0_iff_dvd)
    ultimately have "coeff \<noteq> 0"
    proof (cases "0 \<le> shift")
      case True
      assume "0 \<le> shift \<Longrightarrow> c * 10 ^ nat shift = coeff * n"
      with True have "c * 10 ^ nat shift = coeff * n" by simp
      moreover have "0 < c * 10 ^ nat shift" using c by simp
      ultimately show ?thesis by (cases "coeff = 0") simp_all
    next
      case False
      assume "\<not> 0 \<le> shift \<Longrightarrow> c = coeff * (n * 10 ^ nat (- shift))"
      with False have "c = coeff * (n * 10 ^ nat (- shift))" by simp
      with c show ?thesis by (cases "coeff = 0") simp_all
    qed
    then have "0 < coeff" by simp
    from strip_zeros_digits [OF this st]
    have eq: "int (ndigits c') + e' = int (ndigits coeff) + (e - 0 - shift)" by simp
    have "coeff < 10 ^ (prec + 3)"
    proof -
      have "(10::nat) ^ (prec + 2) < 10 ^ (prec + 3)"
        by (rule power_strict_increasing) simp_all
      with small show ?thesis by (rule less_trans)
    qed
    then have "ndigits coeff \<le> prec + 3" by (rule ndigits_le) simp
    with ex eq have "int (ndigits c') + e' \<le> Emax" by simp
    then have "\<exists>d. dec_fix False c' e' = Inr d" by (intro dec_fix_defined) simp
    with False st unfolded show ?thesis by simp
  qed
qed

end
